theory Spec2Isabelle
  imports Main "HOL-Library.Log_Nat"
begin

section \<open>JavaScript numbers\<close>

text \<open>
  A JavaScript number is an IEEE-754 binary64 value.  The finite ones are carried as the
  rational they denote; every arithmetic operation computes the exact result and rounds it
  to the nearest double, ties to even (\<open>to_double\<close>), overflowing to an infinity.
  The sign of zero is not modelled: no operation below can tell the two zeros apart
  except division by a negative zero, which the embedded code never performs.
\<close>

datatype jsnum = Fin rat | PInf | NInf | NaN

definition pow2 :: "int \<Rightarrow> rat" where
  "pow2 e = (if 0 \<le> e then 2 ^ nat e else 1 / 2 ^ nat (- e))"

definition ilog2 :: "rat \<Rightarrow> int" where
  \<comment> \<open>\<open>\<lfloor>log\<^sub>2 q\<rfloor>\<close> for \<open>q > 0\<close>, from the bit length of an integer next to \<open>q\<close> or \<open>1 / q\<close>\<close>
  "ilog2 q = (if 1 \<le> q then bitlen \<lfloor>q\<rfloor> - 1 else - bitlen (\<lceil>1 / q\<rceil> - 1))"

definition round_half_even :: "rat \<Rightarrow> int" where
  "round_half_even r =
     (let f = \<lfloor>r\<rfloor>; d = r - of_int f
      in if d < 1 / 2 then f else if 1 / 2 < d then f + 1
         else if even f then f else f + 1)"

definition to_double :: "rat \<Rightarrow> jsnum" where
  "to_double q =
     (if q = 0 then Fin 0
      else let e = max (ilog2 \<bar>q\<bar> - 52) (- 1074);
               r = of_int (round_half_even (q / pow2 e)) * pow2 e
           in if 2 ^ 1024 \<le> r then PInf
              else if r \<le> - (2 ^ 1024) then NInf
              else Fin r)"

definition MAX_VALUE :: jsnum where
  "MAX_VALUE = Fin ((2 ^ 53 - 1) * 2 ^ 971)"

fun js_mul :: "jsnum \<Rightarrow> jsnum \<Rightarrow> jsnum" where
  "js_mul (Fin a) (Fin b) = to_double (a * b)"
| "js_mul NaN _ = NaN"
| "js_mul _ NaN = NaN"
| "js_mul (Fin a) PInf = (if a = 0 then NaN else if 0 < a then PInf else NInf)"
| "js_mul (Fin a) NInf = (if a = 0 then NaN else if 0 < a then NInf else PInf)"
| "js_mul PInf (Fin b) = (if b = 0 then NaN else if 0 < b then PInf else NInf)"
| "js_mul NInf (Fin b) = (if b = 0 then NaN else if 0 < b then NInf else PInf)"
| "js_mul PInf PInf = PInf"
| "js_mul PInf NInf = NInf"
| "js_mul NInf PInf = NInf"
| "js_mul NInf NInf = PInf"

fun js_add :: "jsnum \<Rightarrow> jsnum \<Rightarrow> jsnum" where
  "js_add (Fin a) (Fin b) = to_double (a + b)"
| "js_add NaN _ = NaN"
| "js_add _ NaN = NaN"
| "js_add PInf NInf = NaN"
| "js_add NInf PInf = NaN"
| "js_add PInf _ = PInf"
| "js_add NInf _ = NInf"
| "js_add (Fin a) PInf = PInf"
| "js_add (Fin a) NInf = NInf"

fun js_neg :: "jsnum \<Rightarrow> jsnum" where
  "js_neg (Fin a) = Fin (- a)"
| "js_neg PInf = NInf"
| "js_neg NInf = PInf"
| "js_neg NaN = NaN"

definition js_sub :: "jsnum \<Rightarrow> jsnum \<Rightarrow> jsnum" where
  "js_sub a b = js_add a (js_neg b)"

fun js_div :: "jsnum \<Rightarrow> jsnum \<Rightarrow> jsnum" where
  "js_div (Fin a) (Fin b) =
     (if b = 0 then (if a = 0 then NaN else if 0 < a then PInf else NInf)
      else to_double (a / b))"
| "js_div NaN _ = NaN"
| "js_div _ NaN = NaN"
| "js_div (Fin a) _ = Fin 0"
| "js_div PInf (Fin b) = (if 0 \<le> b then PInf else NInf)"
| "js_div NInf (Fin b) = (if 0 \<le> b then NInf else PInf)"
| "js_div _ _ = NaN"

fun js_abs :: "jsnum \<Rightarrow> jsnum" where
  "js_abs (Fin a) = Fin \<bar>a\<bar>"
| "js_abs PInf = PInf"
| "js_abs NInf = PInf"
| "js_abs NaN = NaN"

fun js_less :: "jsnum \<Rightarrow> jsnum \<Rightarrow> bool" where
  "js_less (Fin a) (Fin b) = (a < b)"
| "js_less NaN _ = False"
| "js_less _ NaN = False"
| "js_less _ NInf = False"
| "js_less PInf _ = False"
| "js_less NInf _ = True"
| "js_less (Fin a) PInf = True"

definition js_le :: "jsnum \<Rightarrow> jsnum \<Rightarrow> bool" where
  "js_le a b = (js_less a b \<or> (a \<noteq> NaN \<and> a = b))"

section \<open>Strings\<close>

definition is_digit :: "char \<Rightarrow> bool" where
  "is_digit c = (c \<in> set ''0123456789'')"

definition digit_val :: "char \<Rightarrow> nat" where
  "digit_val c = of_char c - of_char CHR ''0''"

definition digits_value :: "string \<Rightarrow> nat" where
  "digits_value ds = foldl (\<lambda>acc c. 10 * acc + digit_val c) 0 ds"

definition parseInt :: "string \<Rightarrow> jsnum" where
  \<comment> \<open>\<open>parseInt(s, 10)\<close> on a string without leading blanks or sign: the leading decimal
      digits, as a double; \<open>NaN\<close> when there is none\<close>
  "parseInt s =
     (let ds = takeWhile is_digit s
      in if ds = [] then NaN else to_double (of_nat (digits_value ds)))"

section \<open>Size normalisation (utils/params.ts)\<close>

definition SUPPORTED_SIZES :: "string list" where
  "SUPPORTED_SIZES = [''1024x1024'', ''1024x1536'', ''1536x1024'']"

definition is_x :: "char \<Rightarrow> bool" where
  "is_x c = (c = CHR ''x'' \<or> c = CHR ''X'')"

definition match_at :: "string \<Rightarrow> (string \<times> string) option" where
  \<comment> \<open>the pattern \<open>(\d+)x(\d+)\<close>, flag \<open>i\<close>, tried at the start of the string: both groups are
      greedy, and giving back digits of the first group cannot help, since the character
      after a shorter group is a digit\<close>
  "match_at s =
     (let d1 = takeWhile is_digit s; r = dropWhile is_digit s
      in case r of
           [] \<Rightarrow> None
         | c # r' \<Rightarrow>
             (let d2 = takeWhile is_digit r'
              in if d1 \<noteq> [] \<and> is_x c \<and> d2 \<noteq> [] then Some (d1, d2) else None))"

fun size_match :: "string \<Rightarrow> (string \<times> string) option" where
  \<comment> \<open>\<open>size.match(/(\d+)x(\d+)/i)\<close>: the pattern is not anchored, the leftmost start wins\<close>
  "size_match [] = None"
| "size_match (c # cs) =
     (case match_at (c # cs) of Some m \<Rightarrow> Some m | None \<Rightarrow> size_match cs)"

definition split_x :: "string \<Rightarrow> string \<times> string" where
  \<comment> \<open>the first two pieces of \<open>s.split('x')\<close>\<close>
  "split_x s =
     (takeWhile (\<lambda>c. c \<noteq> CHR ''x'') s,
      takeWhile (\<lambda>c. c \<noteq> CHR ''x'') (drop 1 (dropWhile (\<lambda>c. c \<noteq> CHR ''x'') s)))"

definition combinedScore :: "jsnum \<Rightarrow> jsnum \<Rightarrow> string \<Rightarrow> jsnum" where
  "combinedScore requestedWidth requestedHeight supportedSize =
     (let supportedWidth = parseInt (fst (split_x supportedSize));
          supportedHeight = parseInt (snd (split_x supportedSize));
          areaDifference = js_abs (js_sub (js_mul requestedWidth requestedHeight)
                                          (js_mul supportedWidth supportedHeight));
          requestedRatio = js_div requestedWidth requestedHeight;
          supportedRatio = js_div supportedWidth supportedHeight;
          ratioDifference = js_abs (js_sub requestedRatio supportedRatio)
      in js_add (js_mul ratioDifference (Fin 1000)) areaDifference)"

fun closest_loop :: "jsnum \<Rightarrow> jsnum \<Rightarrow> string list \<Rightarrow> string \<times> jsnum \<Rightarrow> string \<times> jsnum" where
  "closest_loop w h [] (closestSize, minDifference) = (closestSize, minDifference)"
| "closest_loop w h (supportedSize # rest) (closestSize, minDifference) =
     (if js_less (combinedScore w h supportedSize) minDifference
      then closest_loop w h rest (supportedSize, combinedScore w h supportedSize)
      else closest_loop w h rest (closestSize, minDifference))"

definition normalizeSize :: "string option \<Rightarrow> string" where
  "normalizeSize sz =
     (case sz of
        None \<Rightarrow> ''auto''
      | Some s \<Rightarrow>
          if s = [] \<or> s = ''auto'' then ''auto''
          else if s \<in> set SUPPORTED_SIZES then s
          else (case size_match s of
                  None \<Rightarrow> ''auto''
                | Some (m1, m2) \<Rightarrow>
                    fst (closest_loop (parseInt m1) (parseInt m2) SUPPORTED_SIZES
                           (hd SUPPORTED_SIZES, MAX_VALUE))))"


text \<open>
  The reading of the format that the specification gives: the whole string is a width, one
  \<open>x\<close> or \<open>X\<close>, and a height, both positive decimal integers.  It is used for comparison
  with \<open>size_match\<close> only.
\<close>

definition is_WIDTHxHEIGHT :: "string \<Rightarrow> bool" where
  "is_WIDTHxHEIGHT s =
     (let d1 = takeWhile is_digit s; r = dropWhile is_digit s
      in case r of
           [] \<Rightarrow> False
         | c # d2 \<Rightarrow> is_x c \<and> d2 \<noteq> [] \<and> list_all is_digit d2 \<and>
                     0 < digits_value d1 \<and> 0 < digits_value d2)"

text \<open>What the search of \<open>size_match\<close> looks for: a digit, an \<open>x\<close>, a digit, anywhere.\<close>

fun has_dim_pattern :: "string \<Rightarrow> bool" where
  "has_dim_pattern (a # c # b # r) =
     ((is_digit a \<and> is_x c \<and> is_digit b) \<or> has_dim_pattern (c # b # r))"
| "has_dim_pattern _ = False"

section \<open>Decimal numerals\<close>

fun decimal :: "nat \<Rightarrow> string" where
  \<comment> \<open>the text of a non-negative integer in a template literal, as in \<open>`${i + 1}`\<close>\<close>
  "decimal k =
     (if k < 10 then [char_of (48 + k)]
      else decimal (k div 10) @ [char_of (48 + k mod 10)])"

declare decimal.simps [simp del]

section \<open>POSIX paths (the \<open>path\<close> module)\<close>

definition isAbsolute :: "string \<Rightarrow> bool" where
  "isAbsolute p = (case p of [] \<Rightarrow> False | c # _ \<Rightarrow> c = CHR ''/'')"

fun split_slash :: "string \<Rightarrow> string list" where
  \<comment> \<open>the pieces of \<open>p.split('/')\<close>\<close>
  "split_slash [] = [[]]"
| "split_slash (c # cs) =
     (if c = CHR ''/'' then [] # split_slash cs
      else (case split_slash cs of [] \<Rightarrow> [[c]] | s # ss \<Rightarrow> (c # s) # ss))"

fun join_slash :: "string list \<Rightarrow> string" where
  "join_slash [] = []"
| "join_slash [s] = s"
| "join_slash (s # t # ss) = s @ CHR ''/'' # join_slash (t # ss)"

fun normalize_segments :: "bool \<Rightarrow> string list \<Rightarrow> string list \<Rightarrow> string list" where
  \<comment> \<open>\<open>normalizeString\<close>: the segments kept so far are held in reverse\<close>
  "normalize_segments allowAboveRoot [] kept = rev kept"
| "normalize_segments allowAboveRoot (s # ss) kept =
     (if s = [] \<or> s = ''.'' then normalize_segments allowAboveRoot ss kept
      else if s = ''..'' then
        (case kept of
           [] \<Rightarrow> normalize_segments allowAboveRoot ss (if allowAboveRoot then [''..''] else [])
         | k # ks \<Rightarrow>
             if k = ''..'' then normalize_segments allowAboveRoot ss (''..'' # k # ks)
             else normalize_segments allowAboveRoot ss ks)
      else normalize_segments allowAboveRoot ss (s # kept))"

definition normalizeString :: "string \<Rightarrow> bool \<Rightarrow> string" where
  "normalizeString p allowAboveRoot =
     join_slash (normalize_segments allowAboveRoot (split_slash p) [])"

definition path_normalize :: "string \<Rightarrow> string" where
  "path_normalize p =
     (if p = [] then ''.''
      else let isAbs = isAbsolute p; trailingSeparator = (last p = CHR ''/'');
               q = normalizeString p (\<not> isAbs);
               q' = (if q = [] then (if isAbs then [] else if trailingSeparator then ''./'' else ''.'')
                     else if trailingSeparator then q @ ''/'' else q)
           in if isAbs then CHR ''/'' # q'
              else q')"

definition path_join :: "string \<Rightarrow> string \<Rightarrow> string" where
  \<comment> \<open>\<open>path.join(a, b)\<close>\<close>
  "path_join a b =
     (if a = [] \<and> b = [] then ''.''
      else if a = [] then path_normalize b
      else if b = [] then path_normalize a
      else path_normalize (a @ CHR ''/'' # b))"

definition resolve_step :: "string \<Rightarrow> string \<times> bool \<Rightarrow> string \<times> bool" where
  \<comment> \<open>one turn of the loop of \<open>path.resolve\<close>, which reads its arguments from the right
      and stops at the first absolute one\<close>
  "resolve_step p acc =
     (if snd acc \<or> p = [] then acc else (p @ CHR ''/'' # fst acc, isAbsolute p))"

definition path_resolve :: "string \<Rightarrow> string \<Rightarrow> string \<Rightarrow> string" where
  \<comment> \<open>\<open>path.resolve(a, b)\<close> in a process whose working directory is \<open>wd\<close>\<close>
  "path_resolve wd a b =
     (let (resolvedPath, resolvedAbsolute) =
            resolve_step wd (resolve_step a (resolve_step b ([], False)));
          q = normalizeString resolvedPath (\<not> resolvedAbsolute)
      in if resolvedAbsolute then CHR ''/'' # q
         else if q = [] then ''.'' else q)"

definition basename :: "string \<Rightarrow> string" where
  "basename p =
     rev (takeWhile (\<lambda>c. c \<noteq> CHR ''/'') (dropWhile (\<lambda>c. c = CHR ''/'') (rev p)))"

section \<open>JSON values and their JavaScript reading\<close>

datatype json =
  JNull | JBool bool | JNum jsnum | JStr string | JArr "json list" | JObj "(string \<times> json) list"

text \<open>
  A value read from an object is a \<open>json option\<close>: \<open>None\<close> is \<open>undefined\<close>.  \<open>JObj\<close> holds the
  entries of a parsed object, so a key occurs once.
\<close>

fun truthy :: "json option \<Rightarrow> bool" where
  "truthy None = False"
| "truthy (Some JNull) = False"
| "truthy (Some (JBool b)) = b"
| "truthy (Some (JNum x)) = (x \<noteq> NaN \<and> x \<noteq> Fin 0)"
| "truthy (Some (JStr s)) = (s \<noteq> [])"
| "truthy (Some (JArr xs)) = True"
| "truthy (Some (JObj kvs)) = True"

fun get_prop :: "json \<Rightarrow> string \<Rightarrow> json option" where
  \<comment> \<open>\<open>v.k\<close> for a value \<open>v\<close> other than \<open>null\<close> and a name \<open>k\<close> that no prototype defines
      (every name read below, except \<open>length\<close>, which has a function of its own)\<close>
  "get_prop (JObj kvs) k = map_of kvs k"
| "get_prop _ k = None"

fun is_number :: "json option \<Rightarrow> bool" where
  \<comment> \<open>\<open>typeof v === 'number'\<close>\<close>
  "is_number (Some (JNum x)) = True"
| "is_number _ = False"

section \<open>The world: file system, provider, clock\<close>

type_synonym bytes = string

datatype fault =
  ApiError string   \<comment> \<open>an axios error whose response body has an \<open>error\<close>; its message\<close>
| Error string      \<comment> \<open>any other \<open>Error\<close>, with its message\<close>
| TypeError         \<comment> \<open>raised by the runtime; the message is the engine's\<close>
| NonError          \<comment> \<open>a thrown value that is not an \<open>Error\<close>\<close>

datatype form_value = Field string | FileField bytes string

record requestParams =
  rp_model :: string
  rp_prompt :: string
  rp_n :: jsnum
  rp_size :: string
  rp_quality :: "string option"
  rp_background :: "string option"
  rp_moderation :: "string option"
  rp_output_format :: "string option"
  rp_output_compression :: "jsnum option"

datatype request =
  Generations requestParams             \<comment> \<open>POST /images/generations, a JSON body\<close>
| Edits "(string \<times> form_value) list"    \<comment> \<open>POST /images/edits, a multipart form\<close>

record world =
  cwd :: string                              \<comment> \<open>\<open>process.cwd()\<close>\<close>
  now :: nat                                 \<comment> \<open>\<open>Date.now()\<close>\<close>
  tmpdir :: string                           \<comment> \<open>\<open>os.tmpdir()\<close>\<close>
  mkdir_error :: "string \<Rightarrow> string option"    \<comment> \<open>why a missing directory cannot be created\<close>
  access_error :: "string \<Rightarrow> string option"   \<comment> \<open>why an existing path is not writable\<close>
  write_error :: "string \<Rightarrow> string option"    \<comment> \<open>why a file cannot be written\<close>
  read_error :: "string \<Rightarrow> string"            \<comment> \<open>the message when a file cannot be read\<close>
  provider :: "request \<Rightarrow> fault + json"       \<comment> \<open>the answer to a request: a fault or \<open>response.data\<close>\<close>
  fetch :: "json \<Rightarrow> fault + bytes"            \<comment> \<open>\<open>axios.get(url)\<close>\<close>
  buffer_from :: "json \<Rightarrow> bytes option"       \<comment> \<open>\<open>Buffer.from(v, 'base64')\<close>; \<open>None\<close> is a TypeError\<close>
  num_str :: "jsnum \<Rightarrow> string"               \<comment> \<open>the text of a number in a template literal\<close>
  value_str :: "json \<Rightarrow> string"              \<comment> \<open>the text of an array or an object in a template literal\<close>
  json_stringify :: "json \<Rightarrow> string"         \<comment> \<open>\<open>JSON.stringify(v, null, 2)\<close>\<close>
  type_error_message :: string               \<comment> \<open>the message of a TypeError\<close>
  to_number :: "json \<Rightarrow> jsnum"                \<comment> \<open>the number a string or an array converts to\<close>
  metadata :: "string \<Rightarrow> fault + nat option \<times> nat option"
                                             \<comment> \<open>\<open>sharp(path).metadata()\<close>: width and height\<close>
  render_png :: "string \<Rightarrow> fault + bytes"     \<comment> \<open>\<open>sharp(svg).png()\<close>\<close>
  dirs :: "string \<Rightarrow> bool"                    \<comment> \<open>state: the directories that exist\<close>
  files :: "string \<Rightarrow> bytes option"           \<comment> \<open>state: the files and their contents\<close>
  requests :: "request list"                 \<comment> \<open>state: the requests sent to the provider\<close>

definition template :: "world \<Rightarrow> json option \<Rightarrow> string" where
  \<comment> \<open>\<open>`${v}`\<close>\<close>
  "template w v =
     (case v of
        None \<Rightarrow> ''undefined''
      | Some JNull \<Rightarrow> ''null''
      | Some (JBool b) \<Rightarrow> (if b then ''true'' else ''false'')
      | Some (JNum x) \<Rightarrow> num_str w x
      | Some (JStr s) \<Rightarrow> s
      | Some u \<Rightarrow> value_str w u)"

definition ensureDir :: "world \<Rightarrow> string \<Rightarrow> string option \<times> world" where
  \<comment> \<open>\<open>fs.ensureDir\<close>: nothing to do for a directory that exists, else create it\<close>
  "ensureDir w p =
     (if dirs w p then (None, w)
      else (case mkdir_error w p of
              Some msg \<Rightarrow> (Some msg, w)
            | None \<Rightarrow> (None, w\<lparr>dirs := (dirs w)(p := True)\<rparr>)))"

definition pathExists :: "world \<Rightarrow> string \<Rightarrow> bool" where
  "pathExists w p = (dirs w p \<or> files w p \<noteq> None)"

definition access_W_OK :: "world \<Rightarrow> string \<Rightarrow> string option" where
  \<comment> \<open>\<open>fs.access(p, W_OK)\<close>: \<open>None\<close> when the path exists and may be written\<close>
  "access_W_OK w p =
     (if pathExists w p then access_error w p else Some ''ENOENT'')"

definition writeFile :: "world \<Rightarrow> string \<Rightarrow> bytes \<Rightarrow> string option \<times> world" where
  "writeFile w p b =
     (case write_error w p of
        Some msg \<Rightarrow> (Some msg, w)
      | None \<Rightarrow> (None, w\<lparr>files := (files w)(p \<mapsto> b)\<rparr>))"

definition readFile :: "world \<Rightarrow> string \<Rightarrow> fault + bytes" where
  "readFile w p = (case files w p of None \<Rightarrow> Inl (Error (read_error w p)) | Some b \<Rightarrow> Inr b)"

section \<open>Save directory (utils/params.ts)\<close>

definition save_target :: "world \<Rightarrow> string option \<Rightarrow> string" where
  \<comment> \<open>\<open>resolvedPath\<close> in \<open>resolveSaveDir\<close>\<close>
  "save_target w saveDir =
     (let baseDir = cwd w
      in case saveDir of
           None \<Rightarrow> baseDir
         | Some d \<Rightarrow>
             if d = [] then baseDir
             else if isAbsolute d then d
             else path_resolve (cwd w) baseDir d)"

definition resolveSaveDir :: "world \<Rightarrow> string option \<Rightarrow> string \<times> world" where
  "resolveSaveDir w saveDir =
     (let baseDir = cwd w; resolvedPath = save_target w saveDir
      in case ensureDir w resolvedPath of
           (Some msg, w') \<Rightarrow> (baseDir, w')
         | (None, w') \<Rightarrow>
             (case access_W_OK w' resolvedPath of
                Some msg \<Rightarrow> (baseDir, w')
              | None \<Rightarrow> (resolvedPath, w')))"

definition usable :: "world \<Rightarrow> string \<Rightarrow> bool" where
  \<comment> \<open>the directory exists or can be created, and may be written\<close>
  "usable w p = ((dirs w p \<or> mkdir_error w p = None) \<and> access_error w p = None)"

section \<open>The image service (services/dalle-service.ts)\<close>

record options =
  o_mask :: "string option"
  o_model :: "string option"
  o_size :: "string option"
  o_quality :: "string option"
  o_background :: "string option"
  o_moderation :: "string option"
  o_output_format :: "string option"
  o_output_compression :: "jsnum option"
  o_n :: "jsnum option"
  o_saveDirPath :: "string option"
  o_fileName :: "string option"

record tokenUsage =
  total_tokens :: "json option"
  input_tokens :: "json option"
  output_tokens :: "json option"
  input_tokens_details :: "json option"

record ImageGenerationResult =
  success :: bool
  error :: "string option"
  imagePaths :: "string list option"
  model :: "string option"
  prompt :: "string option"
  usage :: "tokenUsage option"

definition str_or :: "string option \<Rightarrow> string \<Rightarrow> string" where
  \<comment> \<open>\<open>s || d\<close> for an optional string\<close>
  "str_or s d = (case s of None \<Rightarrow> d | Some v \<Rightarrow> if v = [] then d else v)"

definition num_or :: "jsnum option \<Rightarrow> jsnum \<Rightarrow> jsnum" where
  \<comment> \<open>\<open>x || d\<close> for an optional number: zero and \<open>NaN\<close> are falsy\<close>
  "num_or x d = (case x of None \<Rightarrow> d | Some v \<Rightarrow> if v = NaN \<or> v = Fin 0 then d else v)"

definition allowed :: "string option \<Rightarrow> string list \<Rightarrow> string option" where
  \<comment> \<open>\<open>v && list.includes(v)\<close>: the value when it is kept\<close>
  "allowed s vs = (case s of None \<Rightarrow> None | Some v \<Rightarrow> if v \<noteq> [] \<and> v \<in> set vs then Some v else None)"

definition failure :: "string \<Rightarrow> ImageGenerationResult" where
  "failure msg =
     \<lparr>success = False, error = Some msg, imagePaths = None, model = None, prompt = None,
      usage = None\<rparr>"

definition succeeded ::
  "string list \<Rightarrow> string \<Rightarrow> string \<Rightarrow> tokenUsage option \<Rightarrow> ImageGenerationResult" where
  "succeeded paths model' prompt' usage' =
     \<lparr>success = True, error = None, imagePaths = Some paths, model = Some model',
      prompt = Some prompt', usage = usage'\<rparr>"

fun message_of :: "world \<Rightarrow> string \<Rightarrow> fault \<Rightarrow> string" where
  \<comment> \<open>the \<open>errorMessage\<close> of a \<open>catch\<close> block whose default text is \<open>d\<close>\<close>
  "message_of w d (ApiError m) = ''GPT-Image API Error: '' @ m"
| "message_of w d (Error m) = m"
| "message_of w d TypeError = type_error_message w"
| "message_of w d NonError = d"

definition ensure_writeable :: "world \<Rightarrow> string \<Rightarrow> string option \<times> world" where
  \<comment> \<open>\<open>await fs.ensureDir(saveDir); await fs.access(saveDir, W_OK)\<close>\<close>
  "ensure_writeable w p =
     (case ensureDir w p of
        (Some msg, w') \<Rightarrow> (Some msg, w')
      | (None, w') \<Rightarrow> (access_W_OK w' p, w'))"

definition not_writeable :: "string \<Rightarrow> string \<Rightarrow> ImageGenerationResult" where
  "not_writeable saveDir msg =
     failure (''Save directory ('' @ saveDir @
              '') is not writeable or could not be created: '' @ msg)"

definition image_path :: "world \<Rightarrow> string \<Rightarrow> string \<Rightarrow> jsnum \<Rightarrow> string \<Rightarrow> nat \<Rightarrow> string" where
  \<comment> \<open>the destination of the item at index \<open>i\<close>\<close>
  "image_path w saveDir fileName n ext i =
     (let p = path_join saveDir
                (fileName @ (if js_less (Fin 1) n then ''-'' @ decimal (i + 1) else []) @
                 ''.'' @ ext)
      in if isAbsolute p then p else path_resolve (cwd w) (cwd w) p)"

definition write_image :: "world \<Rightarrow> string \<Rightarrow> bytes \<Rightarrow> (fault + string) \<times> world" where
  \<comment> \<open>\<open>await fs.writeFile(imagePath, buffer); imagePaths.push(imagePath)\<close>\<close>
  "write_image w imagePath buffer =
     (case writeFile w imagePath buffer of
        (Some msg, w') \<Rightarrow> (Inl (Error msg), w')
      | (None, w') \<Rightarrow> (Inr imagePath, w'))"

definition usage_of :: "json \<Rightarrow> tokenUsage option" where
  "usage_of data =
     (case get_prop data ''usage'' of
        None \<Rightarrow> None
      | Some u \<Rightarrow>
          if truthy (Some u)
          then Some \<lparr>total_tokens = get_prop u ''total_tokens'',
                     input_tokens = get_prop u ''input_tokens'',
                     output_tokens = get_prop u ''output_tokens'',
                     input_tokens_details = get_prop u ''input_tokens_details''\<rparr>
          else None)"

definition checked_items :: "json \<Rightarrow> fault + json list" where
  \<comment> \<open>the guard of \<open>generateImage\<close> and \<open>editImage\<close> on \<open>data.data\<close>\<close>
  "checked_items data =
     (if data = JNull then Inl TypeError
      else case get_prop data ''data'' of
             Some (JArr items) \<Rightarrow>
               if items = []
               then Inl (Error ''Unexpected API response structure. Missing or empty data array.'')
               else Inr items
           | _ \<Rightarrow> Inl (Error ''Unexpected API response structure. Missing or empty data array.''))"

subsection \<open>generateImage\<close>

definition generate_request :: "string \<Rightarrow> options \<Rightarrow> requestParams" where
  "generate_request prompt' opts =
     (let output_format = str_or (o_output_format opts) ''png''
      in \<lparr>rp_model = ''gpt-image-1'',
          rp_prompt = prompt',
          rp_n = num_or (o_n opts) (Fin 1),
          rp_size = normalizeSize (o_size opts),
          rp_quality = allowed (o_quality opts) [''auto'', ''high'', ''medium'', ''low''],
          rp_background = allowed (o_background opts) [''auto'', ''transparent'', ''opaque''],
          rp_moderation = allowed (o_moderation opts) [''auto'', ''low''],
          rp_output_format = allowed (o_output_format opts) [''png'', ''jpeg'', ''webp''],
          rp_output_compression =
            (case o_output_compression opts of
               None \<Rightarrow> None
             | Some c \<Rightarrow>
                 if (output_format = ''webp'' \<or> output_format = ''jpeg'') \<and>
                    js_le (Fin 0) c \<and> js_le c (Fin 100)
                 then Some c else None)\<rparr>)"

definition generate_decode :: "world \<Rightarrow> string \<Rightarrow> json \<Rightarrow> (fault + string) \<times> world" where
  \<comment> \<open>from \<open>base64Data.substring\<close>, which only a string has, to the push\<close>
  "generate_decode w imagePath base64Data =
     (case base64Data of
        JStr s \<Rightarrow>
          (case buffer_from w (JStr s) of
             None \<Rightarrow> (Inl TypeError, w)
           | Some imageBuffer \<Rightarrow> write_image w imagePath imageBuffer)
      | _ \<Rightarrow> (Inl TypeError, w))"

definition generate_item :: "world \<Rightarrow> string \<Rightarrow> json \<Rightarrow> (fault + string) \<times> world" where
  "generate_item w imagePath item =
     (if item = JNull then (Inl TypeError, w)
      else if truthy (get_prop item ''url'') then
        (case fetch w (the (get_prop item ''url'')) of
           Inl f \<Rightarrow> (Inl f, w)
         | Inr buffer \<Rightarrow> write_image w imagePath buffer)
      else if truthy (get_prop item ''b64_json'')
      then generate_decode w imagePath (the (get_prop item ''b64_json''))
      else if truthy (get_prop item ''image'')
      then generate_decode w imagePath (the (get_prop item ''image''))
      else (Inl (Error ''Image data not found in expected formats in API response''), w))"

fun save_items ::
  "(world \<Rightarrow> string \<Rightarrow> 'i \<Rightarrow> (fault + string) \<times> world) \<Rightarrow> (nat \<Rightarrow> string) \<Rightarrow>
   world \<Rightarrow> nat \<Rightarrow> 'i list \<Rightarrow> string list \<Rightarrow> (fault + string list) \<times> world" where
  \<comment> \<open>the \<open>for\<close> loop over the items, from index \<open>i\<close>, with the paths pushed so far; a
      fault leaves the loop at once\<close>
  "save_items item_fn path_of w i [] paths = (Inr paths, w)"
| "save_items item_fn path_of w i (item # rest) paths =
     (case item_fn w (path_of i) item of
        (Inl f, w') \<Rightarrow> (Inl f, w')
      | (Inr p, w') \<Rightarrow> save_items item_fn path_of w' (Suc i) rest (paths @ [p]))"

definition debug_suffix :: "world \<Rightarrow> json \<Rightarrow> string" where
  "debug_suffix w debugData =
     CHR 0x0A # ''DEBUG_RESPONSE_DATA: '' @ json_stringify w debugData"

definition generate_reconcile ::
  "world \<Rightarrow> (nat \<Rightarrow> string) \<Rightarrow> string \<Rightarrow> json \<Rightarrow> ImageGenerationResult \<times> world" where
  \<comment> \<open>\<open>generateImage\<close> from \<open>const data = response.data\<close> to the end\<close>
  "generate_reconcile w path_of prompt' data =
     (case checked_items data of
        Inl f \<Rightarrow>
          (failure (message_of w ''Failed to generate image'' f @ debug_suffix w data), w)
      | Inr items \<Rightarrow>
          (case save_items generate_item path_of w 0 items [] of
             (Inl f, w') \<Rightarrow>
               (failure (message_of w' ''Failed to generate image'' f @ debug_suffix w' data), w')
           | (Inr paths, w') \<Rightarrow>
               (succeeded paths ''gpt-image-1'' prompt' (usage_of data), w')))"

definition generateImage ::
  "world \<Rightarrow> string \<Rightarrow> options \<Rightarrow> ImageGenerationResult \<times> world" where
  "generateImage w prompt' opts =
     (let n = num_or (o_n opts) (Fin 1);
          (saveDir, w1) = resolveSaveDir w (o_saveDirPath opts);
          fileName = str_or (o_fileName opts) (''gpt-image-'' @ decimal (now w));
          output_format = str_or (o_output_format opts) ''png''
      in case ensure_writeable w1 saveDir of
           (Some msg, w2) \<Rightarrow> (not_writeable saveDir msg, w2)
         | (None, w2) \<Rightarrow>
             (let requestParams = generate_request prompt' opts;
                  w3 = w2\<lparr>requests := requests w2 @ [Generations requestParams]\<rparr>
              in case provider w3 (Generations requestParams) of
                   Inl f \<Rightarrow>
                     (failure (message_of w3 ''Failed to generate image'' f @
                               debug_suffix w3 JNull), w3)
                 | Inr data \<Rightarrow>
                     generate_reconcile w3 (image_path w3 saveDir fileName n output_format)
                       prompt' data))"

subsection \<open>editImage\<close>

definition edit_form ::
  "world \<Rightarrow> string \<Rightarrow> string \<Rightarrow> options \<Rightarrow> (string \<times> form_value) list" where
  \<comment> \<open>the text fields of the multipart form, shared by the three editing operations\<close>
  "edit_form w prompt' model' opts =
     (let size' = normalizeSize (o_size opts);
          quality = str_or (o_quality opts) ''auto'';
          background = str_or (o_background opts) ''auto'';
          moderation = str_or (o_moderation opts) ''auto'';
          output_format = str_or (o_output_format opts) ''png'';
          output_compression = num_or (o_output_compression opts) (Fin 100);
          n = num_or (o_n opts) (Fin 1)
      in [(''prompt'', Field prompt'), (''model'', Field model'),
          (''n'', Field (num_str w n)), (''size'', Field size')] @
         (if quality \<noteq> [] then [(''quality'', Field quality)] else []) @
         (if background \<noteq> [] then [(''background'', Field background)] else []) @
         (if moderation \<noteq> [] then [(''moderation'', Field moderation)] else []) @
         (if output_format \<noteq> [] then [(''output_format'', Field output_format)] else []) @
         (if (output_format = ''webp'' \<or> output_format = ''jpeg'') \<and>
             output_compression \<noteq> NaN \<and> output_compression \<noteq> Fin 0
          then [(''output_compression'', Field (num_str w output_compression))] else []))"

definition edit_item :: "world \<Rightarrow> string \<Rightarrow> json \<Rightarrow> (fault + string) \<times> world" where
  "edit_item w imagePath item =
     (if item = JNull then (Inl TypeError, w)
      else if truthy (get_prop item ''url'') then
        (case fetch w (the (get_prop item ''url'')) of
           Inl f \<Rightarrow>
             (Inl (Error (''Failed to download edited image from URL: '' @
                          template w (get_prop item ''url''))), w)
         | Inr imageBuffer \<Rightarrow> write_image w imagePath imageBuffer)
      else
        (let base64Data =
               (if truthy (get_prop item ''b64_json'') then get_prop item ''b64_json''
                else if truthy (get_prop item ''image'') then get_prop item ''image''
                else None)
         in case base64Data of
              None \<Rightarrow>
                (Inl (Error (''Image data not found in expected formats (url, b64_json, image) '' @
                             ''in edit API response'')), w)
            | Some v \<Rightarrow>
                (case buffer_from w v of
                   None \<Rightarrow> (Inl (Error ''Failed to create image buffer from base64 data.''), w)
                 | Some imageBuffer \<Rightarrow> write_image w imagePath imageBuffer)))"

definition mask_of :: "options \<Rightarrow> string option" where
  \<comment> \<open>\<open>options.mask\<close> when it is truthy\<close>
  "mask_of opts = (case o_mask opts of None \<Rightarrow> None | Some m \<Rightarrow> if m = [] then None else Some m)"

definition read_mask :: "world \<Rightarrow> options \<Rightarrow> fault + (string \<times> form_value) list" where
  \<comment> \<open>the \<open>mask\<close> part of the form, if a mask is given\<close>
  "read_mask w opts =
     (case mask_of opts of
        None \<Rightarrow> Inr []
      | Some m \<Rightarrow>
          (case readFile w m of
             Inl f \<Rightarrow> Inl f
           | Inr maskBuffer \<Rightarrow> Inr [(''mask'', FileField maskBuffer (basename m))]))"

definition edit_reconcile ::
  "world \<Rightarrow> (nat \<Rightarrow> string) \<Rightarrow> string \<Rightarrow> json \<Rightarrow> ImageGenerationResult \<times> world" where
  \<comment> \<open>\<open>editImage\<close> from \<open>const data = response.data\<close> to the end\<close>
  "edit_reconcile w path_of prompt' data =
     (case checked_items data of
        Inl f \<Rightarrow> (failure (message_of w ''Failed to edit image'' f), w)
      | Inr items \<Rightarrow>
          (case save_items edit_item path_of w 0 items [] of
             (Inl f, w') \<Rightarrow> (failure (message_of w' ''Failed to edit image'' f), w')
           | (Inr paths, w') \<Rightarrow>
               (succeeded paths ''gpt-image-1'' prompt' (usage_of data), w')))"

definition editImage ::
  "world \<Rightarrow> string \<Rightarrow> string \<Rightarrow> options \<Rightarrow> ImageGenerationResult \<times> world" where
  "editImage w prompt' imagePath opts =
     (let model' = ''gpt-image-1'';
          output_format = str_or (o_output_format opts) ''png'';
          n = num_or (o_n opts) (Fin 1);
          (saveDir, w1) = resolveSaveDir w (o_saveDirPath opts);
          fileName = str_or (o_fileName opts) (''gpt-image-edit-'' @ decimal (now w))
      in case ensure_writeable w1 saveDir of
           (Some msg, w2) \<Rightarrow> (not_writeable saveDir msg, w2)
         | (None, w2) \<Rightarrow>
             if \<not> pathExists w2 imagePath
             then (failure (''Image file not found: '' @ imagePath), w2)
             else if (case mask_of opts of None \<Rightarrow> False | Some m \<Rightarrow> \<not> pathExists w2 m)
             then (failure (''Mask file not found: '' @ the (mask_of opts)), w2)
             else
               (case readFile w2 imagePath of
                  Inl f \<Rightarrow> (failure (message_of w2 ''Failed to edit image'' f), w2)
                | Inr imageBuffer \<Rightarrow>
                    (case read_mask w2 opts of
                       Inl f \<Rightarrow> (failure (message_of w2 ''Failed to edit image'' f), w2)
                     | Inr maskPart \<Rightarrow>
                         (let formData = edit_form w2 prompt' model' opts @
                                [(''image'', FileField imageBuffer (basename imagePath))] @ maskPart;
                              w3 = w2\<lparr>requests := requests w2 @ [Edits formData]\<rparr>
                          in case provider w3 (Edits formData) of
                               Inl f \<Rightarrow> (failure (message_of w3 ''Failed to edit image'' f), w3)
                             | Inr data \<Rightarrow>
                                 edit_reconcile w3
                                   (image_path w3 saveDir fileName n
                                      (if output_format = [] then ''png'' else output_format))
                                   prompt' data))))"

subsection \<open>imageToImage and editMultipleImages\<close>

function obj_items :: "jsnum \<Rightarrow> (string \<times> json) list \<Rightarrow> nat \<Rightarrow> json option list" where
  \<comment> \<open>the values \<open>o[i], o[i + 1], \<dots>\<close> that a loop bounded by \<open>len\<close> reads from an object,
      up to and including the first that is \<open>undefined\<close>; the entry just read is dropped,
      which changes no later read, the keys being decimal numerals\<close>
  "obj_items len kvs i =
     (if js_less (Fin (of_nat i)) len
      then (case map_of kvs (decimal i) of
              None \<Rightarrow> [None]
            | Some v \<Rightarrow> Some v # obj_items len (filter (\<lambda>kv. fst kv \<noteq> decimal i) kvs) (Suc i))
      else [])"
  by pat_completeness auto
termination
proof (relation "measure (\<lambda>(len, kvs, i). length kvs)")
  show "wf (measure (\<lambda>(len, kvs, i). length kvs))" by simp
next
  fix len :: jsnum and kvs :: "(string \<times> json) list" and i :: nat and v :: json
  assume "map_of kvs (decimal i) = Some v"
  then have "(decimal i, v) \<in> set kvs" by (rule map_of_SomeD)
  then have "length (filter (\<lambda>kv. fst kv \<noteq> decimal i) kvs) < length kvs"
    by (intro length_filter_less [of "(decimal i, v)"]) auto
  then show "((len, filter (\<lambda>kv. fst kv \<noteq> decimal i) kvs, Suc i), (len, kvs, i))
      \<in> measure (\<lambda>(len, kvs, i). length kvs)"
    by simp
qed

declare obj_items.simps [simp del]

definition length_number :: "world \<Rightarrow> json option \<Rightarrow> jsnum" where
  \<comment> \<open>the number that \<open>i < v\<close> compares with\<close>
  "length_number w v =
     (case v of
        None \<Rightarrow> NaN
      | Some JNull \<Rightarrow> Fin 0
      | Some (JBool b) \<Rightarrow> Fin (if b then 1 else 0)
      | Some (JNum x) \<Rightarrow> x
      | Some (JObj kvs) \<Rightarrow> NaN
      | Some u \<Rightarrow> to_number w u)"

definition loop_items :: "world \<Rightarrow> json \<Rightarrow> fault + json option list" where
  \<comment> \<open>the items that \<open>for (i = 0; i < data.data.length; i++)\<close> visits, with no guard on
      \<open>data.data\<close>: an array gives its elements, a string its characters, a number or a
      boolean has no \<open>length\<close>, an object is read through its \<open>length\<close> entry\<close>
  "loop_items w data =
     (if data = JNull then Inl TypeError
      else case get_prop data ''data'' of
             None \<Rightarrow> Inl TypeError
           | Some JNull \<Rightarrow> Inl TypeError
           | Some (JArr items) \<Rightarrow> Inr (map Some items)
           | Some (JStr s) \<Rightarrow> Inr (map (\<lambda>c. Some (JStr [c])) s)
           | Some (JObj kvs) \<Rightarrow> Inr (obj_items (length_number w (map_of kvs ''length'')) kvs 0)
           | Some _ \<Rightarrow> Inr [])"

definition plain_item :: "world \<Rightarrow> string \<Rightarrow> json option \<Rightarrow> (fault + string) \<times> world" where
  \<comment> \<open>\<open>Buffer.from(item.image, 'base64')\<close>, then the write and the push\<close>
  "plain_item w resultPath item =
     (case item of
        None \<Rightarrow> (Inl TypeError, w)
      | Some JNull \<Rightarrow> (Inl TypeError, w)
      | Some v \<Rightarrow>
          (case get_prop v ''image'' of
             None \<Rightarrow> (Inl TypeError, w)
           | Some b64 \<Rightarrow>
               (case buffer_from w b64 of
                  None \<Rightarrow> (Inl TypeError, w)
                | Some resultBuffer \<Rightarrow> write_image w resultPath resultBuffer)))"

definition plain_reconcile ::
  "world \<Rightarrow> string \<Rightarrow> (nat \<Rightarrow> string) \<Rightarrow> string \<Rightarrow> string \<Rightarrow> bool \<Rightarrow> json \<Rightarrow>
   ImageGenerationResult \<times> world" where
  \<comment> \<open>\<open>imageToImage\<close> and \<open>editMultipleImages\<close> from \<open>const data = response.data\<close> to
      the end; \<open>dflt\<close> is the default message of the \<open>catch\<close> block, and only the second
      operation reports the usage\<close>
  "plain_reconcile w dflt path_of model' prompt' with_usage data =
     (case loop_items w data of
        Inl f \<Rightarrow> (failure (message_of w dflt f), w)
      | Inr items \<Rightarrow>
          (case save_items plain_item path_of w 0 items [] of
             (Inl f, w') \<Rightarrow> (failure (message_of w' dflt f), w')
           | (Inr paths, w') \<Rightarrow>
               (succeeded paths model' prompt' (if with_usage then usage_of data else None), w')))"

definition imageToImage ::
  "world \<Rightarrow> string \<Rightarrow> string \<Rightarrow> options \<Rightarrow> ImageGenerationResult \<times> world" where
  "imageToImage w imagePath prompt' opts =
     (let model' = ''gpt-image-1'';
          output_format = str_or (o_output_format opts) ''png'';
          n = num_or (o_n opts) (Fin 1);
          (saveDir, w1) = resolveSaveDir w (o_saveDirPath opts);
          fileName = str_or (o_fileName opts) (''gpt-img2img-'' @ decimal (now w));
          dflt = ''Failed to generate image from input image''
      in case ensure_writeable w1 saveDir of
           (Some msg, w2) \<Rightarrow> (not_writeable saveDir msg, w2)
         | (None, w2) \<Rightarrow>
             if \<not> pathExists w2 imagePath
             then (failure (''Image file not found: '' @ imagePath), w2)
             else
               (case readFile w2 imagePath of
                  Inl f \<Rightarrow> (failure (message_of w2 dflt f), w2)
                | Inr imageBuffer \<Rightarrow>
                    (let formData = edit_form w2 prompt' model' opts @
                           [(''image'', FileField imageBuffer (basename imagePath))];
                         w3 = w2\<lparr>requests := requests w2 @ [Edits formData]\<rparr>
                     in case provider w3 (Edits formData) of
                          Inl f \<Rightarrow> (failure (message_of w3 dflt f), w3)
                        | Inr data \<Rightarrow>
                            plain_reconcile w3 dflt
                              (image_path w3 saveDir fileName n
                                 (if output_format = [] then ''png'' else output_format))
                              model' prompt' False data)))"

fun first_missing :: "world \<Rightarrow> string list \<Rightarrow> string option" where
  \<comment> \<open>the first input image that does not exist\<close>
  "first_missing w [] = None"
| "first_missing w (p # ps) = (if \<not> pathExists w p then Some p else first_missing w ps)"

fun read_images :: "world \<Rightarrow> string list \<Rightarrow> fault + (string \<times> form_value) list" where
  "read_images w [] = Inr []"
| "read_images w (p # ps) =
     (case readFile w p of
        Inl f \<Rightarrow> Inl f
      | Inr imageBuffer \<Rightarrow>
          map_sum id (\<lambda>r. (''image[]'', FileField imageBuffer (basename p)) # r)
            (read_images w ps))"

definition editMultipleImages ::
  "world \<Rightarrow> string \<Rightarrow> string list \<Rightarrow> options \<Rightarrow> ImageGenerationResult \<times> world" where
  "editMultipleImages w prompt' inputPaths opts =
     (let model' = str_or (o_model opts) ''gpt-image-1'';
          output_format = str_or (o_output_format opts) ''png'';
          n = num_or (o_n opts) (Fin 1);
          (saveDir, w1) = resolveSaveDir w (o_saveDirPath opts);
          fileName = str_or (o_fileName opts) (''image-edit-'' @ decimal (now w));
          dflt = ''Failed to edit multiple images''
      in case ensure_writeable w1 saveDir of
           (Some msg, w2) \<Rightarrow> (not_writeable saveDir msg, w2)
         | (None, w2) \<Rightarrow>
             (case first_missing w2 inputPaths of
                Some p \<Rightarrow> (failure (''Image file not found: '' @ p), w2)
              | None \<Rightarrow>
                  (case read_images w2 inputPaths of
                     Inl f \<Rightarrow> (failure (message_of w2 dflt f), w2)
                   | Inr imageParts \<Rightarrow>
                       (let formData = edit_form w2 prompt' model' opts @ imageParts;
                            w3 = w2\<lparr>requests := requests w2 @ [Edits formData]\<rparr>
                        in case provider w3 (Edits formData) of
                             Inl f \<Rightarrow> (failure (message_of w3 dflt f), w3)
                           | Inr data \<Rightarrow>
                               plain_reconcile w3 dflt
                                 (image_path w3 saveDir fileName n
                                    (if output_format = [] then ''png'' else output_format))
                                 model' prompt' True data))))"

section \<open>The \<open>edit_image\<close> tool (tools/index.ts)\<close>

record edit_args =
  a_prompt :: string
  a_imagePath :: string
  a_mask :: "string option"
  a_mask_shapes :: "json list option"
  a_size :: "string option"
  a_quality :: "string option"
  a_background :: "string option"
  a_moderation :: "string option"
  a_output_format :: "string option"
  a_output_compression :: "jsnum option"
  a_n :: "jsnum option"
  a_saveDirPath :: "string option"
  a_fileName :: "string option"

definition quoted :: "string \<Rightarrow> string" where
  "quoted s = CHR 0x22 # s @ [CHR 0x22]"

definition absolute_of :: "world \<Rightarrow> string \<Rightarrow> string" where
  \<comment> \<open>\<open>path.isAbsolute(p) ? p : path.resolve(process.cwd(), p)\<close>\<close>
  "absolute_of w p = (if isAbsolute p then p else path_resolve (cwd w) (cwd w) p)"

definition scaled :: "world \<Rightarrow> json option \<Rightarrow> nat \<Rightarrow> string" where
  \<comment> \<open>\<open>`${v * dim}`\<close> for a field \<open>v\<close> that is a number\<close>
  "scaled w v extent =
     (case v of Some (JNum x) \<Rightarrow> num_str w (js_mul x (Fin (of_nat extent))) | _ \<Rightarrow> [])"

fun valid_point :: "json \<Rightarrow> bool" where
  \<comment> \<open>\<open>Array.isArray(p) && p.length === 2\<close> and both entries are numbers\<close>
  "valid_point (JArr [JNum a, JNum b]) = True"
| "valid_point _ = False"

fun point_str :: "world \<Rightarrow> nat \<Rightarrow> nat \<Rightarrow> json \<Rightarrow> string" where
  "point_str w imgWidth imgHeight (JArr [a, b]) =
     scaled w (Some a) imgWidth @ '','' @ scaled w (Some b) imgHeight"
| "point_str w imgWidth imgHeight _ = []"

fun join_with :: "string \<Rightarrow> string list \<Rightarrow> string" where
  "join_with sep [] = []"
| "join_with sep [s] = s"
| "join_with sep (s # t # ss) = s @ sep @ join_with sep (t # ss)"

definition shape_svg :: "world \<Rightarrow> nat \<Rightarrow> nat \<Rightarrow> json \<Rightarrow> fault + string" where
  \<comment> \<open>the callback of \<open>args.mask_shapes.map\<close>; reading \<open>details\<close> of \<open>null\<close> is a TypeError\<close>
  "shape_svg w imgWidth imgHeight shape =
     (if shape = JNull then Inl TypeError
      else if \<not> truthy (get_prop shape ''details'') then Inr []
      else
        (let details = the (get_prop shape ''details'')
         in if get_prop shape ''type'' = Some (JStr ''rectangle'') then
              (if \<not> is_number (get_prop details ''x'') \<or> \<not> is_number (get_prop details ''y'') \<or>
                  \<not> is_number (get_prop details ''width'') \<or>
                  \<not> is_number (get_prop details ''height'')
               then Inr []
               else Inr (''<rect x='' @ quoted (scaled w (get_prop details ''x'') imgWidth) @
                         '' y='' @ quoted (scaled w (get_prop details ''y'') imgHeight) @
                         '' width='' @ quoted (scaled w (get_prop details ''width'') imgWidth) @
                         '' height='' @ quoted (scaled w (get_prop details ''height'') imgHeight) @
                         '' fill='' @ quoted ''white'' @ '' />''))
            else if get_prop shape ''type'' = Some (JStr ''circle'') then
              (if \<not> is_number (get_prop details ''cx'') \<or> \<not> is_number (get_prop details ''cy'') \<or>
                  \<not> is_number (get_prop details ''radius'')
               then Inr []
               else Inr (''<circle cx='' @ quoted (scaled w (get_prop details ''cx'') imgWidth) @
                         '' cy='' @ quoted (scaled w (get_prop details ''cy'') imgHeight) @
                         '' r='' @ quoted (scaled w (get_prop details ''radius'')
                                            (min imgWidth imgHeight)) @
                         '' fill='' @ quoted ''white'' @ '' />''))
            else if get_prop shape ''type'' = Some (JStr ''polygon'') then
              (case get_prop details ''points'' of
                 Some (JArr points) \<Rightarrow>
                   if list_ex (\<lambda>p. \<not> valid_point p) points then Inr []
                   else Inr (''<polygon points='' @
                             quoted (join_with '' '' (map (point_str w imgWidth imgHeight) points)) @
                             '' fill='' @ quoted ''white'' @ '' />'')
               | _ \<Rightarrow> Inr [])
            else Inr []))"

fun shapesSvg :: "world \<Rightarrow> nat \<Rightarrow> nat \<Rightarrow> json list \<Rightarrow> fault + string" where
  \<comment> \<open>\<open>args.mask_shapes.map(\<dots>).join('')\<close>\<close>
  "shapesSvg w imgWidth imgHeight [] = Inr []"
| "shapesSvg w imgWidth imgHeight (shape # rest) =
     (case shape_svg w imgWidth imgHeight shape of
        Inl f \<Rightarrow> Inl f
      | Inr s \<Rightarrow> map_sum id (\<lambda>r. s @ r) (shapesSvg w imgWidth imgHeight rest))"

definition mask_svg :: "world \<Rightarrow> nat \<Rightarrow> nat \<Rightarrow> json list \<Rightarrow> fault + string" where
  \<comment> \<open>the document handed to the renderer: a black canvas, then the shapes in white\<close>
  "mask_svg w imgWidth imgHeight shapes =
     map_sum id
       (\<lambda>s. ''<svg width='' @ quoted (decimal imgWidth) @ '' height='' @ quoted (decimal imgHeight) @
            ''><rect width='' @ quoted ''100%'' @ '' height='' @ quoted ''100%'' @
            '' fill='' @ quoted ''black'' @ ''/>'' @ s @ ''</svg>'')
       (shapesSvg w imgWidth imgHeight shapes)"

definition rasterize ::
  "world \<Rightarrow> string \<Rightarrow> json list \<Rightarrow> (fault option \<times> string option) \<times> world" where
  \<comment> \<open>the branch of the handler that makes a temporary mask file from the shapes: the
      fault that ends it, if any, and \<open>tempMaskPath\<close> once it has been assigned\<close>
  "rasterize w imagePathAbs shapes =
     (case metadata w imagePathAbs of
        Inl f \<Rightarrow> ((Some f, None), w)
      | Inr (width, height) \<Rightarrow>
          if width = None \<or> width = Some 0 \<or> height = None \<or> height = Some 0
          then ((Some (Error ''Could not read image dimensions.''), None), w)
          else
            (case mask_svg w (the width) (the height) shapes of
               Inl f \<Rightarrow> ((Some f, None), w)
             | Inr svg \<Rightarrow>
                 (let tempMaskPath = path_join (tmpdir w) (''mask-'' @ decimal (now w) @ ''.png'')
                  in case render_png w svg of
                       Inl f \<Rightarrow> ((Some f, Some tempMaskPath), w)
                     | Inr png \<Rightarrow>
                         (case writeFile w tempMaskPath png of
                            (Some msg, w') \<Rightarrow> ((Some (Error msg), Some tempMaskPath), w')
                          | (None, w') \<Rightarrow> ((None, Some tempMaskPath), w')))))"

definition unlink :: "world \<Rightarrow> string \<Rightarrow> world" where
  \<comment> \<open>\<open>fs.unlink\<close> in the \<open>finally\<close> block; a failure is logged and dropped\<close>
  "unlink w p = w\<lparr>files := (files w)(p := None)\<rparr>"

definition cleanup :: "string option \<Rightarrow> world \<Rightarrow> world" where
  \<comment> \<open>the \<open>finally\<close> block: \<open>if (tempMaskPath)\<close> delete the file\<close>
  "cleanup tempMaskPath w =
     (case tempMaskPath of
        None \<Rightarrow> w
      | Some p \<Rightarrow> if p \<noteq> [] then unlink w p else w)"

definition plural :: "nat \<Rightarrow> string" where
  "plural k = (if k \<noteq> 1 then ''s'' else [])"

definition usage_text :: "world \<Rightarrow> tokenUsage option \<Rightarrow> string" where
  "usage_text w u =
     (case u of
        None \<Rightarrow> []
      | Some t \<Rightarrow>
          ''Token usage:'' @ [CHR 0x0A] @
          ''- Total tokens: '' @ template w (total_tokens t) @ [CHR 0x0A] @
          ''- Input tokens: '' @ template w (input_tokens t) @ [CHR 0x0A] @
          ''- Output tokens: '' @ template w (output_tokens t) @ [CHR 0x0A] @
          (if truthy (input_tokens_details t)
           then ''- Text tokens: '' @
                template w (get_prop (the (input_tokens_details t)) ''text_tokens'') @ [CHR 0x0A] @
                ''- Image tokens: '' @
                template w (get_prop (the (input_tokens_details t)) ''image_tokens'') @ [CHR 0x0A]
           else []) @
          [CHR 0x0A])"

definition edit_response ::
  "world \<Rightarrow> string \<Rightarrow> string option \<Rightarrow> bool \<Rightarrow> ImageGenerationResult \<Rightarrow> string" where
  \<comment> \<open>the text returned after \<open>editImage\<close>; \<open>fromShapes\<close> says that \<open>tempMaskPath\<close> is set\<close>
  "edit_response w imagePathAbs maskPathToUse fromShapes result =
     (if \<not> success result
      then ''Error editing image: '' @ template w (map_option JStr (error result))
      else
        (let paths = (case imagePaths result of None \<Rightarrow> [] | Some ps \<Rightarrow> ps);
             imageCount = length paths
         in ''Successfully edited '' @ decimal imageCount @ '' image'' @ plural imageCount @
            '' using gpt-image-1.'' @ [CHR 0x0A, CHR 0x0A] @
            ''Original image: '' @ imagePathAbs @ [CHR 0x0A] @
            (case maskPathToUse of
               None \<Rightarrow> []
             | Some m \<Rightarrow>
                 if m = [] then []
                 else if fromShapes then ''Mask generated from shapes.'' @ [CHR 0x0A]
                 else ''Mask image: '' @ m @ [CHR 0x0A]) @
            ''Prompt: '' @ quoted (template w (map_option JStr (prompt result))) @
            [CHR 0x0A, CHR 0x0A] @
            usage_text w (usage result) @
            ''Edited image'' @ plural imageCount @ '' saved to:'' @ [CHR 0x0A] @
            concat (map (\<lambda>p. ''- '' @ p @ [CHR 0x0A]) paths)))"

definition mutually_exclusive :: string where
  "mutually_exclusive =
     ''Error: '' @ [CHR 0x27] @ ''mask'' @ [CHR 0x27] @ '' (image path) and '' @
     [CHR 0x27] @ ''mask_shapes'' @ [CHR 0x27] @
     '' (geometric shapes) are mutually exclusive. Provide one or the other, not both.''"

definition edit_options :: "edit_args \<Rightarrow> string option \<Rightarrow> options" where
  \<comment> \<open>the options object passed to \<open>editImage\<close>\<close>
  "edit_options args maskPathToUse =
     \<lparr>o_mask = maskPathToUse, o_model = None, o_size = a_size args,
      o_quality = a_quality args, o_background = a_background args,
      o_moderation = a_moderation args, o_output_format = a_output_format args,
      o_output_compression = a_output_compression args, o_n = a_n args,
      o_saveDirPath = a_saveDirPath args, o_fileName = a_fileName args\<rparr>"

definition has_mask :: "edit_args \<Rightarrow> bool" where
  \<comment> \<open>\<open>args.mask\<close> is truthy\<close>
  "has_mask args = (case a_mask args of None \<Rightarrow> False | Some m \<Rightarrow> m \<noteq> [])"

definition has_shapes :: "edit_args \<Rightarrow> bool" where
  \<comment> \<open>\<open>args.mask_shapes && args.mask_shapes.length > 0\<close>\<close>
  "has_shapes args = (case a_mask_shapes args of None \<Rightarrow> False | Some shapes \<Rightarrow> shapes \<noteq> [])"

definition edit_image_handler :: "world \<Rightarrow> edit_args \<Rightarrow> (fault + string) \<times> world" where
  \<comment> \<open>\<open>Inr\<close> is the text of the response, \<open>Inl\<close> a fault that leaves the handler\<close>
  "edit_image_handler w args =
     (let imagePathAbs = absolute_of w (a_imagePath args)
      in if has_mask args \<and> has_shapes args then (Inr mutually_exclusive, w)
         else if has_shapes args then
           (case rasterize w imagePathAbs (the (a_mask_shapes args)) of
              ((Some f, tempMaskPath), w1) \<Rightarrow> (Inl f, cleanup tempMaskPath w1)
            | ((None, tempMaskPath), w1) \<Rightarrow>
                (let (result, w2) =
                       editImage w1 (a_prompt args) imagePathAbs (edit_options args tempMaskPath)
                 in (Inr (edit_response w2 imagePathAbs tempMaskPath True result),
                     cleanup tempMaskPath w2)))
         else
           (let maskPathToUse =
                  (if has_mask args then Some (absolute_of w (the (a_mask args))) else None);
                (result, w2) =
                  editImage w (a_prompt args) imagePathAbs (edit_options args maskPathToUse)
            in (Inr (edit_response w2 imagePathAbs maskPathToUse False result), w2)))"

section \<open>Notions taken from the specification, for comparison with the code\<close>

datatype shape =
  Rectangle jsnum jsnum jsnum jsnum   \<comment> \<open>\<open>x\<close>, \<open>y\<close>, \<open>width\<close>, \<open>height\<close>\<close>
| Circle jsnum jsnum jsnum            \<comment> \<open>\<open>cx\<close>, \<open>cy\<close>, \<open>radius\<close>\<close>
| Polygon "(jsnum \<times> jsnum) list"     \<comment> \<open>the points, in order\<close>

definition number_field :: "json \<Rightarrow> string \<Rightarrow> jsnum option" where
  \<comment> \<open>the named field of a record, when it is present and is a number\<close>
  "number_field d k =
     (case d of
        JObj kvs \<Rightarrow> (case map_of kvs k of Some (JNum x) \<Rightarrow> Some x | _ \<Rightarrow> None)
      | _ \<Rightarrow> None)"

fun parse_point :: "json \<Rightarrow> (jsnum \<times> jsnum) option" where
  \<comment> \<open>a pair of numbers\<close>
  "parse_point (JArr [JNum a, JNum b]) = Some (a, b)"
| "parse_point _ = None"

definition points_field :: "json \<Rightarrow> (jsnum \<times> jsnum) list option" where
  \<comment> \<open>the field \<open>points\<close> of a record, when it is a sequence of pairs of numbers\<close>
  "points_field d =
     (case d of
        JObj kvs \<Rightarrow>
          (case map_of kvs ''points'' of
             Some (JArr ps) \<Rightarrow>
               if list_all (\<lambda>p. parse_point p \<noteq> None) ps
               then Some (map (\<lambda>p. the (parse_point p)) ps) else None
           | _ \<Rightarrow> None)
      | _ \<Rightarrow> None)"

definition parse_shape :: "json \<Rightarrow> shape option" where
  \<comment> \<open>the ShapeDescriptor that an entry of the list denotes: a record with a known \<open>type\<close>
      tag and \<open>details\<close> that hold every field of that tag with the right type\<close>
  "parse_shape s =
     (case s of
        JObj kvs \<Rightarrow>
          (case map_of kvs ''details'' of
             None \<Rightarrow> None
           | Some d \<Rightarrow>
               (case map_of kvs ''type'' of
                  Some (JStr t) \<Rightarrow>
                    if t = ''rectangle'' then
                      (case (number_field d ''x'', number_field d ''y'',
                             number_field d ''width'', number_field d ''height'') of
                         (Some x, Some y, Some wd, Some ht) \<Rightarrow> Some (Rectangle x y wd ht)
                       | _ \<Rightarrow> None)
                    else if t = ''circle'' then
                      (case (number_field d ''cx'', number_field d ''cy'',
                             number_field d ''radius'') of
                         (Some cx, Some cy, Some r) \<Rightarrow> Some (Circle cx cy r)
                       | _ \<Rightarrow> None)
                    else if t = ''polygon'' then map_option Polygon (points_field d)
                    else None
                | _ \<Rightarrow> None))
      | _ \<Rightarrow> None)"

definition well_formed_shape :: "json \<Rightarrow> bool" where
  "well_formed_shape s = (parse_shape s \<noteq> None)"

definition malformed :: "json \<Rightarrow> bool" where
  \<comment> \<open>an entry of the shape list that is not a well-formed shape: a record with a missing
      or wrongly typed field or an unknown tag, or no record at all\<close>
  "malformed s = (\<not> well_formed_shape s)"

definition described :: "json list \<Rightarrow> shape list" where
  \<comment> \<open>the shapes that a list describes, in input order, its malformed entries left out\<close>
  "described S = map (\<lambda>s. the (parse_shape s)) (filter (\<lambda>s. \<not> malformed s) S)"

definition denormalized :: "world \<Rightarrow> jsnum \<Rightarrow> nat \<Rightarrow> string" where
  \<comment> \<open>a normalized coordinate multiplied by an extent of the image, as text\<close>
  "denormalized w x extent = num_str w (js_mul x (Fin (of_nat extent)))"

fun element :: "world \<Rightarrow> nat \<Rightarrow> nat \<Rightarrow> shape \<Rightarrow> string" where
  \<comment> \<open>a shape painted white: x-axis fields are multiplied by the width of the image, y-axis
      fields by its height, the radius of a circle by the smaller of the two\<close>
  "element w width height (Rectangle x y wd ht) =
     ''<rect x='' @ quoted (denormalized w x width) @
     '' y='' @ quoted (denormalized w y height) @
     '' width='' @ quoted (denormalized w wd width) @
     '' height='' @ quoted (denormalized w ht height) @
     '' fill='' @ quoted ''white'' @ '' />''"
| "element w width height (Circle cx cy r) =
     ''<circle cx='' @ quoted (denormalized w cx width) @
     '' cy='' @ quoted (denormalized w cy height) @
     '' r='' @ quoted (denormalized w r (min width height)) @
     '' fill='' @ quoted ''white'' @ '' />''"
| "element w width height (Polygon ps) =
     ''<polygon points='' @
     quoted (join_with '' ''
               (map (\<lambda>(a, b). denormalized w a width @ '','' @ denormalized w b height) ps)) @
     '' fill='' @ quoted ''white'' @ '' />''"

definition mask_document :: "world \<Rightarrow> nat \<Rightarrow> nat \<Rightarrow> shape list \<Rightarrow> string" where
  \<comment> \<open>a canvas of the size of the image, all black, then each shape in white, in order\<close>
  "mask_document w width height shapes =
     ''<svg width='' @ quoted (decimal width) @ '' height='' @ quoted (decimal height) @
     ''><rect width='' @ quoted ''100%'' @ '' height='' @ quoted ''100%'' @
     '' fill='' @ quoted ''black'' @ ''/>'' @
     concat (map (element w width height) shapes) @ ''</svg>''"

definition bad_item :: "world \<Rightarrow> json \<Rightarrow> bool" where
  \<comment> \<open>an item of the response that cannot be processed: its remote reference cannot be
      fetched, or it has no reference and no image data under \<open>b64_json\<close> or \<open>image\<close> (absent
      or empty), or the data it has cannot be decoded\<close>
  "bad_item w item =
     (if truthy (get_prop item ''url'') then isl (fetch w (the (get_prop item ''url'')))
      else if truthy (get_prop item ''b64_json'')
      then buffer_from w (the (get_prop item ''b64_json'')) = None
      else if truthy (get_prop item ''image'')
      then buffer_from w (the (get_prop item ''image'')) = None
      else True)"

definition in_0_100 :: "jsnum \<Rightarrow> bool" where
  \<comment> \<open>a number in the interval from 0 to 100\<close>
  "in_0_100 c = (case c of Fin x \<Rightarrow> 0 \<le> x \<and> x \<le> 100 | _ \<Rightarrow> False)"

definition is_integer :: "jsnum \<Rightarrow> bool" where
  "is_integer c = (case c of Fin x \<Rightarrow> x = of_int \<lfloor>x\<rfloor> | _ \<Rightarrow> False)"

section \<open>Notions used in the statements\<close>

definition env_eq :: "world \<Rightarrow> world \<Rightarrow> bool" where
  \<comment> \<open>the second world is the first after some steps: only the state has changed\<close>
  "env_eq w w' = (w'\<lparr>dirs := dirs w, files := files w, requests := requests w\<rparr> = w)"

definition reported :: "ImageGenerationResult \<Rightarrow> nat" where
  \<comment> \<open>the number of saved paths in a result\<close>
  "reported r = (case imagePaths r of None \<Rightarrow> 0 | Some ps \<Rightarrow> length ps)"

definition steady :: "(world \<Rightarrow> string \<Rightarrow> 'i \<Rightarrow> (fault + string) \<times> world) \<Rightarrow> bool" where
  \<comment> \<open>a loop body that changes nothing but the files and directories\<close>
  "steady item_fn = (\<forall>w p x r w'. item_fn w p x = (r, w') \<longrightarrow>
                       env_eq w w' \<and> requests w' = requests w)"

definition reconciled ::
  "(world \<Rightarrow> string \<Rightarrow> 'i \<Rightarrow> (fault + string) \<times> world) \<Rightarrow> 'i list \<Rightarrow> world \<Rightarrow>
   ImageGenerationResult \<Rightarrow> world \<Rightarrow> bool" where
  \<comment> \<open>the loop saved every one of the items, and the result reports the paths it pushed\<close>
  "reconciled item_fn items w r w' =
     (\<exists>path_of paths. save_items item_fn path_of w 0 items [] = (Inr paths, w') \<and>
        success r \<and> imagePaths r = Some paths)"

definition temp_mask_path :: "world \<Rightarrow> string" where
  \<comment> \<open>the temporary file of the rasterised mask:
      \<open>path.join(os.tmpdir(), `mask-${Date.now()}.png`)\<close>\<close>
  "temp_mask_path w = path_join (tmpdir w) (''mask-'' @ decimal (now w) @ ''.png'')"

definition mask_parts :: "request \<Rightarrow> form_value list" where
  \<comment> \<open>the \<open>mask\<close> parts of a request\<close>
  "mask_parts q =
     (case q of
        Edits form \<Rightarrow> map snd (filter (\<lambda>kv. fst kv = ''mask'') form)
      | Generations rp \<Rightarrow> [])"

section \<open>Example worlds and inputs\<close>

definition ro_world :: world where
  \<comment> \<open>a process whose working directory exists and where nothing can be written\<close>
  "ro_world =
     \<lparr>cwd = ''/srv/app'', now = 17, tmpdir = ''/tmp'',
      mkdir_error = (\<lambda>p. Some ''EACCES''), access_error = (\<lambda>p. Some ''EACCES''),
      write_error = (\<lambda>p. Some ''EACCES''), read_error = (\<lambda>p. ''ENOENT''),
      provider = (\<lambda>r. Inl (Error ''ECONNREFUSED'')), fetch = (\<lambda>u. Inl (Error ''ECONNREFUSED'')),
      buffer_from = (\<lambda>v. None), num_str = (\<lambda>x. ''1''), value_str = (\<lambda>v. ''[object Object]''),
      json_stringify = (\<lambda>v. ''null''), type_error_message = ''TypeError'',
      to_number = (\<lambda>v. NaN), metadata = (\<lambda>p. Inl (Error ''ENOENT'')),
      render_png = (\<lambda>s. Inl (Error ''unsupported'')),
      dirs = (\<lambda>p. p = ''/srv/app''), files = (\<lambda>p. None), requests = []\<rparr>"

definition demo_world :: "json \<Rightarrow> world" where
  \<comment> \<open>a process in \<open>/srv/app\<close> with an input image and a mask file, where every directory can
      be made and written, and a stub provider that answers every request with \<open>resp\<close>; the
      decoder and the renderer are stand-ins that return their input\<close>
  "demo_world resp =
     \<lparr>cwd = ''/srv/app'', now = 17, tmpdir = ''/tmp'',
      mkdir_error = (\<lambda>p. None), access_error = (\<lambda>p. None),
      write_error = (\<lambda>p. None), read_error = (\<lambda>p. ''ENOENT''),
      provider = (\<lambda>r. Inr resp), fetch = (\<lambda>u. Inl (Error ''ECONNREFUSED'')),
      buffer_from = (\<lambda>v. case v of JStr s \<Rightarrow> Some s | _ \<Rightarrow> None),
      num_str = (\<lambda>x. case x of Fin q \<Rightarrow> decimal (nat \<lfloor>q\<rfloor>) | _ \<Rightarrow> ''NaN''),
      value_str = (\<lambda>v. ''[object Object]''),
      json_stringify = (\<lambda>v. ''{}''), type_error_message = ''TypeError'',
      to_number = (\<lambda>v. NaN), metadata = (\<lambda>p. Inr (Some 4, Some 4)),
      render_png = (\<lambda>s. Inr s),
      dirs = (\<lambda>p. p = ''/srv/app'' \<or> p = ''/tmp''),
      files = (\<lambda>p. if p = ''/srv/app/in.png'' then Some ''PNG''
                    else if p = ''/srv/app/mask.png'' then Some ''MASK'' else None),
      requests = []\<rparr>"

definition no_options :: options where
  "no_options =
     \<lparr>o_mask = None, o_model = None, o_size = None, o_quality = None, o_background = None,
      o_moderation = None, o_output_format = None, o_output_compression = None, o_n = None,
      o_saveDirPath = None, o_fileName = Some ''img''\<rparr>"

definition edit_demo :: edit_args where
  "edit_demo =
     \<lparr>a_prompt = ''a red ball'', a_imagePath = ''in.png'', a_mask = None, a_mask_shapes = None,
      a_size = None, a_quality = None, a_background = None, a_moderation = None,
      a_output_format = None, a_output_compression = None, a_n = None, a_saveDirPath = None,
      a_fileName = Some ''img''\<rparr>"

definition b64_item :: "string \<Rightarrow> json" where
  "b64_item s = JObj [(''b64_json'', JStr s)]"

definition response :: "json list \<Rightarrow> json" where
  "response items = JObj [(''data'', JArr items)]"

definition unit_rectangle :: json where
  "unit_rectangle =
     JObj [(''type'', JStr ''rectangle''),
           (''details'', JObj [(''x'', JNum (Fin 0)), (''y'', JNum (Fin 0)),
                               (''width'', JNum (Fin 1)), (''height'', JNum (Fin 1))])]"

definition circle_without_fields :: json where
  "circle_without_fields = JObj [(''type'', JStr ''circle''), (''details'', JObj [])]"

section \<open>Evaluating doubles\<close>

lemma floor_rat_numeral_div:
  "\<lfloor>numeral a / numeral b :: rat\<rfloor> = numeral a div numeral b"
  by (metis floor_divide_of_int_eq of_int_numeral)

lemma floor_rat_neg_numeral_div:
  "\<lfloor>- (numeral a / numeral b) :: rat\<rfloor> = - numeral a div numeral b"
  by (metis floor_divide_of_int_eq of_int_numeral of_int_minus minus_divide_left)

lemma ceiling_rat_numeral_div:
  "\<lceil>numeral a / numeral b :: rat\<rceil> = - (- numeral a div numeral b)"
  by (simp add: ceiling_def floor_rat_neg_numeral_div)

lemmas double_eval =
  to_double_def ilog2_def pow2_def round_half_even_def Let_def compute_bitlen
  floor_rat_numeral_div floor_rat_neg_numeral_div ceiling_rat_numeral_div

lemma parseInt_digits:
  "parseInt ''1024'' = Fin 1024" "parseInt ''1536'' = Fin 1536"
  "parseInt ''800'' = Fin 800" "parseInt ''600'' = Fin 600" "parseInt ''0'' = Fin 0"
proof -
  have "takeWhile is_digit ''1024'' = ''1024''" "digits_value ''1024'' = 1024"
       "takeWhile is_digit ''1536'' = ''1536''" "digits_value ''1536'' = 1536"
       "takeWhile is_digit ''800'' = ''800''" "digits_value ''800'' = 800"
       "takeWhile is_digit ''600'' = ''600''" "digits_value ''600'' = 600"
       "takeWhile is_digit ''0'' = ''0''" "digits_value ''0'' = 0"
    by code_simp+
  then show "parseInt ''1024'' = Fin 1024" "parseInt ''1536'' = Fin 1536"
    "parseInt ''800'' = Fin 800" "parseInt ''600'' = Fin 600" "parseInt ''0'' = Fin 0"
    by (simp_all add: parseInt_def double_eval)
qed

lemma split_x_supported:
  "split_x ''1024x1024'' = (''1024'', ''1024'')"
  "split_x ''1024x1536'' = (''1024'', ''1536'')"
  "split_x ''1536x1024'' = (''1536'', ''1024'')"
  by code_simp+

lemmas score_eval =
  combinedScore_def split_x_supported parseInt_digits js_sub_def double_eval

lemma score_1536:
  "combinedScore (Fin 1536) (Fin 1536) ''1024x1024'' = Fin 1310720"
  "combinedScore (Fin 1536) (Fin 1536) ''1024x1536'' = Fin (6758262752586411 / 8589934592)"
  "combinedScore (Fin 1536) (Fin 1536) ''1536x1024'' = Fin 786932"
  by (simp_all add: score_eval)

lemma score_NaN: "combinedScore (Fin 0) (Fin 0) s = NaN"
  by (simp add: combinedScore_def Let_def js_sub_def)

lemma score_800_600:
  "combinedScore (Fin 800) (Fin 600) ''1024x1024'' = Fin (4886893962111659 / 8589934592)"
  "combinedScore (Fin 800) (Fin 600) ''1024x1536'' = Fin (4696678450506411 / 4294967296)"
  "combinedScore (Fin 800) (Fin 600) ''1536x1024'' = Fin (4694530966858411 / 4294967296)"
  by (simp_all add: score_eval)

section \<open>Properties of size normalisation\<close>

lemma is_x_not_digit: "is_x c \<Longrightarrow> \<not> is_digit c"
  by (auto simp: is_x_def is_digit_def)

lemma has_dim_pattern_Cons: "has_dim_pattern t \<Longrightarrow> has_dim_pattern (x # t)"
  by (cases t rule: has_dim_pattern.cases) auto

lemma digits_then_pattern:
  "d1 \<noteq> [] \<Longrightarrow> list_all is_digit d1 \<Longrightarrow> is_x c \<Longrightarrow> is_digit b \<Longrightarrow>
   has_dim_pattern (d1 @ c # b # r)"
proof (induction d1)
  case Nil
  then show ?case by simp
next
  case (Cons a d1)
  show ?case
  proof (cases d1)
    case Nil
    with Cons.prems show ?thesis by simp
  next
    case (Cons a' d1')
    with Cons.IH Cons.prems have "has_dim_pattern (d1 @ c # b # r)" by simp
    then show ?thesis by (simp add: has_dim_pattern_Cons)
  qed
qed

lemma match_at_pattern:
  assumes "match_at s = Some m"
  shows "has_dim_pattern s"
proof -
  let ?d1 = "takeWhile is_digit s"
  from assms obtain c r' where r: "dropWhile is_digit s = c # r'"
    by (auto simp: match_at_def Let_def split: list.splits)
  with assms have d1: "?d1 \<noteq> []" and c: "is_x c" and d2: "takeWhile is_digit r' \<noteq> []"
    by (auto simp: match_at_def Let_def split: if_splits)
  from d2 obtain b r'' where r': "r' = b # r''" and b: "is_digit b"
    by (cases r') (auto split: if_splits)
  have "s = ?d1 @ c # b # r''"
    using r r' takeWhile_dropWhile_id [of is_digit s] by simp
  moreover have "list_all is_digit ?d1"
    by (simp add: list_all_iff) (metis set_takeWhileD)
  ultimately show ?thesis
    using digits_then_pattern [OF d1 _ c b, of r''] by simp
qed

lemma size_match_pattern: "size_match s = Some m \<Longrightarrow> has_dim_pattern s"
  by (induction s) (auto split: option.splits intro: match_at_pattern has_dim_pattern_Cons)

lemma pattern_size_match: "has_dim_pattern s \<Longrightarrow> size_match s \<noteq> None"
proof (induction s rule: has_dim_pattern.induct)
  case (1 a c b r)
  show ?case
  proof (cases "is_digit a \<and> is_x c \<and> is_digit b")
    case True
    then have "match_at (a # c # b # r) \<noteq> None"
      by (simp add: match_at_def Let_def is_x_not_digit)
    then show ?thesis by (auto split: option.splits)
  next
    case False
    with 1 have "size_match (c # b # r) \<noteq> None" by simp
    then show ?thesis by (auto split: option.splits)
  qed
qed simp_all

lemma size_match_None_iff: "size_match s = None \<longleftrightarrow> \<not> has_dim_pattern s"
proof (cases "size_match s")
  case None
  then show ?thesis using pattern_size_match by blast
next
  case (Some m)
  then show ?thesis using size_match_pattern by simp
qed

lemma closest_loop_member:
  "fst (closest_loop w h xs (c, m)) \<in> insert c (set xs)"
  by (induction xs arbitrary: c m) auto

lemma hd_supported: "hd SUPPORTED_SIZES \<in> set SUPPORTED_SIZES"
  by (simp add: SUPPORTED_SIZES_def)

lemma auto_not_supported: "''auto'' \<notin> set SUPPORTED_SIZES"
  by (simp add: SUPPORTED_SIZES_def)

lemma supported_all_pattern: "list_all has_dim_pattern SUPPORTED_SIZES"
  by code_simp

lemma supported_has_pattern: "s \<in> set SUPPORTED_SIZES \<Longrightarrow> has_dim_pattern s"
  using supported_all_pattern by (simp add: list_all_iff)

lemma auto_no_pattern: "\<not> has_dim_pattern ''auto''"
  by code_simp

lemma normalizeSize_matched:
  assumes "s \<noteq> []" "s \<noteq> ''auto''" "s \<notin> set SUPPORTED_SIZES" "size_match s = Some (m1, m2)"
  shows "normalizeSize (Some s) =
           fst (closest_loop (parseInt m1) (parseInt m2) SUPPORTED_SIZES
                  (hd SUPPORTED_SIZES, MAX_VALUE))"
  using assms by (simp add: normalizeSize_def)

lemma normalizeSize_supported_or_auto:
  "normalizeSize sz = ''auto'' \<or> normalizeSize sz \<in> set SUPPORTED_SIZES"
proof (cases sz)
  case None
  then show ?thesis by (simp add: normalizeSize_def)
next
  case (Some s)
  show ?thesis
  proof (cases "s = [] \<or> s = ''auto'' \<or> s \<in> set SUPPORTED_SIZES \<or> size_match s = None")
    case True
    with Some show ?thesis by (auto simp: normalizeSize_def)
  next
    case False
    then obtain m1 m2 where m: "size_match s = Some (m1, m2)" by auto
    have "fst (closest_loop (parseInt m1) (parseInt m2) SUPPORTED_SIZES
                (hd SUPPORTED_SIZES, MAX_VALUE)) \<in> set SUPPORTED_SIZES"
      using closest_loop_member [of "parseInt m1" "parseInt m2" SUPPORTED_SIZES
          "hd SUPPORTED_SIZES" MAX_VALUE] hd_supported
      by (simp only: insert_absorb)
    with False m Some show ?thesis
      using normalizeSize_matched [of s m1 m2] by simp
  qed
qed

text \<open>
  C1.  \<open>normalizeSize\<close> returns \<open>1024x1024\<close> unchanged.  For the request \<open>1536x1536\<close> the
  three supported sizes score 1310720, about 786765.33 and 786932 under
  \<open>1000 * |ratio difference| + |area difference|\<close>: the weight 1000 is too small for the
  ratio term to count against area differences of several hundred thousand pixels, the
  strict minimum is at \<open>1024x1536\<close>, and that size is returned for a square request.
\<close>

theorem normalizeSize_1536_square:
  "normalizeSize (Some ''1024x1024'') = ''1024x1024'' \<and>
   normalizeSize (Some ''1536x1536'') = ''1024x1536'' \<and>
   map (combinedScore (Fin 1536) (Fin 1536)) SUPPORTED_SIZES =
     [Fin 1310720, Fin (6758262752586411 / 8589934592), Fin 786932] \<and>
   map (js_less (combinedScore (Fin 1536) (Fin 1536) ''1024x1536''))
     [Fin 1310720, Fin 786932] = [True, True]"
proof -
  have m: "size_match ''1536x1536'' = Some (''1536'', ''1536'')"
    by code_simp
  have ne: "''1536x1536'' \<noteq> []" "''1536x1536'' \<noteq> ''auto''"
      "''1536x1536'' \<notin> set SUPPORTED_SIZES"
    by (simp_all add: SUPPORTED_SIZES_def)
  have "normalizeSize (Some ''1536x1536'') = ''1024x1536''"
    unfolding normalizeSize_matched [OF ne m]
    by (simp add: SUPPORTED_SIZES_def MAX_VALUE_def parseInt_digits score_1536)
  moreover have "normalizeSize (Some ''1024x1024'') = ''1024x1024''"
    by (simp add: normalizeSize_def SUPPORTED_SIZES_def)
  ultimately show ?thesis
    by (simp add: SUPPORTED_SIZES_def score_1536)
qed

text \<open>
  C4 (as the code has it).  \<open>normalizeSize\<close> answers \<open>auto\<close> for exactly the strings in which
  no digit is followed by \<open>x\<close> or \<open>X\<close> and then a digit: the pattern is searched for, not
  matched against the whole string, and the numbers found need not be positive.
\<close>

theorem normalizeSize_auto_iff:
  "normalizeSize (Some s) = ''auto'' \<longleftrightarrow> \<not> has_dim_pattern s"
proof (cases "s = [] \<or> s = ''auto''")
  case True
  then show ?thesis using auto_no_pattern by (auto simp: normalizeSize_def)
next
  case False
  note ne = this
  show ?thesis
  proof (cases "s \<in> set SUPPORTED_SIZES")
    case True
    with ne show ?thesis
      using supported_has_pattern auto_not_supported by (auto simp: normalizeSize_def)
  next
    case False
    show ?thesis
    proof (cases "size_match s")
      case None
      with ne False show ?thesis
        by (simp add: normalizeSize_def size_match_None_iff [symmetric])
    next
      case (Some m)
      obtain m1 m2 where m: "m = (m1, m2)" by (cases m)
      have "normalizeSize (Some s) \<noteq> ''auto''"
      proof -
        have "fst (closest_loop (parseInt m1) (parseInt m2) SUPPORTED_SIZES
                  (hd SUPPORTED_SIZES, MAX_VALUE)) \<in> set SUPPORTED_SIZES"
          using closest_loop_member [of "parseInt m1" "parseInt m2" SUPPORTED_SIZES
              "hd SUPPORTED_SIZES" MAX_VALUE] hd_supported
          by (simp only: insert_absorb)
        then show ?thesis
          using normalizeSize_matched [of s m1 m2] ne False Some m auto_not_supported
          by auto
      qed
      moreover have "has_dim_pattern s" using Some size_match_pattern by blast
      ultimately show ?thesis by simp
    qed
  qed
qed

theorem normalizeSize_auto_iff_witness:
  "\<not> has_dim_pattern ''large'' \<and> normalizeSize (Some ''large'') = ''auto''"
proof -
  have "\<not> has_dim_pattern ''large''" by code_simp
  then show ?thesis using normalizeSize_auto_iff [of "''large''"] by simp
qed

text \<open>
  C4, counterexample: \<open>0x0\<close> and \<open>v800x600px\<close> are not of the form width, \<open>x\<close>, height with
  positive integers, are not \<open>auto\<close> and not supported sizes, and both are normalised to
  \<open>1024x1024\<close>, not to \<open>auto\<close>.
\<close>

theorem normalizeSize_not_auto_outside_format:
  "\<not> is_WIDTHxHEIGHT ''0x0'' \<and> ''0x0'' \<noteq> ''auto'' \<and> ''0x0'' \<notin> set SUPPORTED_SIZES \<and>
   normalizeSize (Some ''0x0'') = ''1024x1024'' \<and>
   \<not> is_WIDTHxHEIGHT ''v800x600px'' \<and> ''v800x600px'' \<noteq> ''auto'' \<and>
   ''v800x600px'' \<notin> set SUPPORTED_SIZES \<and>
   normalizeSize (Some ''v800x600px'') = ''1024x1024'' \<and> ''1024x1024'' \<noteq> ''auto''"
proof -
  have f: "\<not> is_WIDTHxHEIGHT ''0x0''" "\<not> is_WIDTHxHEIGHT ''v800x600px''"
    by code_simp+
  have m0: "size_match ''0x0'' = Some (''0'', ''0'')"
    and m8: "size_match ''v800x600px'' = Some (''800'', ''600'')"
    by code_simp+
  have ne0: "''0x0'' \<noteq> []" "''0x0'' \<noteq> ''auto''" "''0x0'' \<notin> set SUPPORTED_SIZES"
    and ne8: "''v800x600px'' \<noteq> []" "''v800x600px'' \<noteq> ''auto''"
      "''v800x600px'' \<notin> set SUPPORTED_SIZES"
    by (simp_all add: SUPPORTED_SIZES_def)
  have r0: "normalizeSize (Some ''0x0'') = ''1024x1024''"
    unfolding normalizeSize_matched [OF ne0 m0]
    by (simp add: SUPPORTED_SIZES_def MAX_VALUE_def parseInt_digits score_NaN)
  have r8: "normalizeSize (Some ''v800x600px'') = ''1024x1024''"
    unfolding normalizeSize_matched [OF ne8 m8]
    by (simp add: SUPPORTED_SIZES_def MAX_VALUE_def parseInt_digits score_800_600)
  show ?thesis using f ne0 ne8 r0 r8 by simp
qed

section \<open>Properties of the save directory\<close>

lemma path_resolve_absolute: "isAbsolute wd \<Longrightarrow> isAbsolute (path_resolve wd a b)"
proof -
  assume a: "isAbsolute wd"
  then have ne: "wd \<noteq> []" by (auto simp: isAbsolute_def)
  have "snd (resolve_step wd acc)" for acc
    using a ne by (simp add: resolve_step_def)
  then show ?thesis
    by (simp add: path_resolve_def Let_def split_beta isAbsolute_def)
qed

lemma save_target_absolute: "isAbsolute (cwd w) \<Longrightarrow> isAbsolute (save_target w d)"
  by (simp add: save_target_def Let_def path_resolve_absolute split: option.splits)

lemma resolveSaveDir_fst:
  "fst (resolveSaveDir w d) = (if usable w (save_target w d) then save_target w d else cwd w)"
  by (auto simp: resolveSaveDir_def usable_def ensureDir_def access_W_OK_def pathExists_def
      Let_def split: option.splits)

text \<open>
  C5 (as the code has it).  In a process whose working directory is absolute,
  \<open>resolveSaveDir\<close> returns an absolute path: the resolved form of its input when that
  directory exists or can be created and may be written, and the working directory in
  every other case.  The fallback is returned without a check of its own, so the result is
  writable exactly when the requested directory was usable or the working directory happens
  to be writable.
\<close>

theorem resolveSaveDir_policy:
  "isAbsolute (cwd w) \<Longrightarrow>
     isAbsolute (fst (resolveSaveDir w d)) \<and>
     fst (resolveSaveDir w d) = (if usable w (save_target w d) then save_target w d else cwd w) \<and>
     (access_W_OK (snd (resolveSaveDir w d)) (fst (resolveSaveDir w d)) = None
        \<longleftrightarrow> usable w (save_target w d) \<or> access_W_OK w (cwd w) = None)"
proof -
  assume a: "isAbsolute (cwd w)"
  have 1: "isAbsolute (fst (resolveSaveDir w d))"
    using a save_target_absolute [OF a, of d] by (simp add: resolveSaveDir_fst)
  have 3: "access_W_OK (snd (resolveSaveDir w d)) (fst (resolveSaveDir w d)) = None
        \<longleftrightarrow> usable w (save_target w d) \<or> access_W_OK w (cwd w) = None"
    by (auto simp: resolveSaveDir_def usable_def ensureDir_def access_W_OK_def pathExists_def
        Let_def split: option.splits if_splits)
  show ?thesis using 1 3 resolveSaveDir_fst by blast
qed

theorem resolveSaveDir_policy_witness:
  "isAbsolute (cwd (demo_world JNull)) \<and>
   usable (demo_world JNull) (save_target (demo_world JNull) (Some ''out'')) \<and>
   save_target (demo_world JNull) (Some ''out'') = ''/srv/app/out'' \<and>
   fst (resolveSaveDir (demo_world JNull) (Some ''out'')) = ''/srv/app/out'' \<and>
   isAbsolute (fst (resolveSaveDir (demo_world JNull) (Some ''out''))) \<and>
   access_W_OK (snd (resolveSaveDir (demo_world JNull) (Some ''out'')))
     (fst (resolveSaveDir (demo_world JNull) (Some ''out''))) = None"
proof -
  have a: "isAbsolute (cwd (demo_world JNull))"
    by (simp add: demo_world_def isAbsolute_def)
  have t: "save_target (demo_world JNull) (Some ''out'') = ''/srv/app/out''"
    by code_simp
  have u: "usable (demo_world JNull) ''/srv/app/out''"
    by (simp add: usable_def demo_world_def)
  from resolveSaveDir_policy [OF a, of "Some ''out''"] a t u show ?thesis by auto
qed

text \<open>
  C5, counterexample: where nothing can be created or written, the directory asked for is
  refused and the working directory is returned, although it is not writable.
\<close>

theorem resolveSaveDir_returns_unwritable:
  "fst (resolveSaveDir ro_world (Some ''out'')) = ''/srv/app'' \<and>
   access_W_OK (snd (resolveSaveDir ro_world (Some ''out''))) ''/srv/app'' = Some ''EACCES''"
  by (simp add: resolveSaveDir_def save_target_def ensureDir_def access_W_OK_def pathExists_def
      Let_def ro_world_def)

section \<open>What the operations leave unchanged\<close>

lemma env_eq_refl [simp]: "env_eq w w"
  by (simp add: env_eq_def)

lemma env_eq_updates [simp]:
  "env_eq w (w\<lparr>dirs := d\<rparr>)" "env_eq w (w\<lparr>files := f\<rparr>)" "env_eq w (w\<lparr>requests := r\<rparr>)"
  by (simp_all add: env_eq_def)

lemma env_eq_fields:
  assumes "env_eq w w'"
  shows "provider w' = provider w" "fetch w' = fetch w" "buffer_from w' = buffer_from w"
    "cwd w' = cwd w" "now w' = now w" "write_error w' = write_error w"
    "mkdir_error w' = mkdir_error w" "access_error w' = access_error w"
    "to_number w' = to_number w" "type_error_message w' = type_error_message w"
    "value_str w' = value_str w" "num_str w' = num_str w" "read_error w' = read_error w"
proof -
  let ?v = "w'\<lparr>dirs := dirs w, files := files w, requests := requests w\<rparr>"
  have e: "?v = w" using assms by (simp add: env_eq_def)
  have "provider ?v = provider w'" "fetch ?v = fetch w'" "buffer_from ?v = buffer_from w'"
    "cwd ?v = cwd w'" "now ?v = now w'" "write_error ?v = write_error w'"
    "mkdir_error ?v = mkdir_error w'" "access_error ?v = access_error w'"
    "to_number ?v = to_number w'" "type_error_message ?v = type_error_message w'"
    "value_str ?v = value_str w'" "num_str ?v = num_str w'" "read_error ?v = read_error w'"
    by simp_all
  then show "provider w' = provider w" "fetch w' = fetch w" "buffer_from w' = buffer_from w"
    "cwd w' = cwd w" "now w' = now w" "write_error w' = write_error w"
    "mkdir_error w' = mkdir_error w" "access_error w' = access_error w"
    "to_number w' = to_number w" "type_error_message w' = type_error_message w"
    "value_str w' = value_str w" "num_str w' = num_str w" "read_error w' = read_error w"
    unfolding e by simp_all
qed

lemma env_eq_trans: "env_eq a b \<Longrightarrow> env_eq b c \<Longrightarrow> env_eq a c"
proof -
  assume ab: "env_eq a b" and bc: "env_eq b c"
  have "c\<lparr>dirs := dirs a, files := files a, requests := requests a\<rparr> =
        (c\<lparr>dirs := dirs b, files := files b, requests := requests b\<rparr>)
          \<lparr>dirs := dirs a, files := files a, requests := requests a\<rparr>"
    by simp
  also have "\<dots> = b\<lparr>dirs := dirs a, files := files a, requests := requests a\<rparr>"
    using bc by (simp only: env_eq_def)
  also have "\<dots> = a" using ab by (simp only: env_eq_def)
  finally show ?thesis by (simp only: env_eq_def)
qed

lemma ensureDir_env:
  "ensureDir w p = (r, w') \<Longrightarrow> env_eq w w' \<and> files w' = files w \<and> requests w' = requests w"
  by (auto simp: ensureDir_def split: option.splits if_splits)

lemma resolveSaveDir_env:
  "resolveSaveDir w d = (r, w') \<Longrightarrow> env_eq w w' \<and> files w' = files w \<and> requests w' = requests w"
  by (auto simp: resolveSaveDir_def Let_def split: prod.splits option.splits dest: ensureDir_env)

lemma ensure_writeable_env:
  "ensure_writeable w p = (r, w') \<Longrightarrow> env_eq w w' \<and> files w' = files w \<and> requests w' = requests w"
  by (auto simp: ensure_writeable_def split: prod.splits option.splits dest: ensureDir_env)

lemma write_image_env:
  "write_image w p b = (r, w') \<Longrightarrow> env_eq w w' \<and> requests w' = requests w"
  by (auto simp: write_image_def writeFile_def split: option.splits)

lemma steady_generate_item: "steady generate_item"
  unfolding steady_def generate_item_def generate_decode_def
  by (auto split: option.splits sum.splits json.splits if_splits dest: write_image_env)

lemma steady_edit_item: "steady edit_item"
  unfolding steady_def edit_item_def
  by (auto simp: Let_def split: option.splits sum.splits json.splits if_splits dest: write_image_env)

lemma steady_plain_item: "steady plain_item"
  unfolding steady_def plain_item_def
  by (auto split: option.splits sum.splits json.splits if_splits dest: write_image_env)

lemma save_items_steady:
  "steady item_fn \<Longrightarrow> save_items item_fn path_of w i items acc = (r, w') \<Longrightarrow>
   env_eq w w' \<and> requests w' = requests w"
proof (induction items arbitrary: w i acc)
  case Nil
  then show ?case by simp
next
  case (Cons item rest)
  obtain res w1 where s: "item_fn w (path_of i) item = (res, w1)" by (cases "item_fn w (path_of i) item")
  from Cons.prems(1) s have e: "env_eq w w1" "requests w1 = requests w"
    unfolding steady_def by blast+
  show ?case
  proof (cases res)
    case (Inl f)
    with s e Cons.prems(2) show ?thesis by simp
  next
    case (Inr p)
    with s Cons.prems(2) have "save_items item_fn path_of w1 (Suc i) rest (acc @ [p]) = (r, w')"
      by simp
    from Cons.IH [OF Cons.prems(1) this] e
    show ?thesis by (auto intro: env_eq_trans)
  qed
qed

lemma save_items_length:
  "save_items item_fn path_of w i items acc = (Inr paths, w') \<Longrightarrow>
   length paths = length acc + length items"
proof (induction items arbitrary: w i acc)
  case Nil
  then show ?case by simp
next
  case (Cons item rest)
  then show ?case
    by (auto split: prod.splits sum.splits)
qed

section \<open>The shape of every result\<close>

lemma failure_fields [simp]:
  "\<not> success (failure msg)" "imagePaths (failure msg) = None" "error (failure msg) = Some msg"
  by (simp_all add: failure_def)

lemma succeeded_fields [simp]:
  "success (succeeded ps m p u)" "imagePaths (succeeded ps m p u) = Some ps"
  "error (succeeded ps m p u) = None"
  by (simp_all add: succeeded_def)

lemma checked_items_array:
  "checked_items data = Inr items \<Longrightarrow> get_prop data ''data'' = Some (JArr items) \<and> items \<noteq> []"
  by (auto simp: checked_items_def split: if_splits option.splits json.splits)

lemma generate_reconcile_result:
  assumes "generate_reconcile w path_of p data = (r, w')"
  shows "env_eq w w' \<and> requests w' = requests w \<and>
         ((\<exists>msg. r = failure msg) \<or>
          (\<exists>items. checked_items data = Inr items \<and> reconciled generate_item items w r w'))"
proof (cases "checked_items data")
  case (Inl f)
  with assms show ?thesis by (auto simp: generate_reconcile_def)
next
  case (Inr items)
  obtain res w4 where si: "save_items generate_item path_of w 0 items [] = (res, w4)"
    by (cases "save_items generate_item path_of w 0 items []")
  note st = save_items_steady [OF steady_generate_item si]
  show ?thesis
  proof (cases res)
    case (Inl f)
    with assms Inr si st show ?thesis by (auto simp: generate_reconcile_def)
  next
    case (Inr paths)
    with assms \<open>checked_items data = Inr items\<close> si st show ?thesis
      by (auto simp: generate_reconcile_def reconciled_def)
  qed
qed

lemma edit_reconcile_result:
  assumes "edit_reconcile w path_of p data = (r, w')"
  shows "env_eq w w' \<and> requests w' = requests w \<and>
         ((\<exists>msg. r = failure msg) \<or>
          (\<exists>items. checked_items data = Inr items \<and> reconciled edit_item items w r w'))"
proof (cases "checked_items data")
  case (Inl f)
  with assms show ?thesis by (auto simp: edit_reconcile_def)
next
  case (Inr items)
  obtain res w4 where si: "save_items edit_item path_of w 0 items [] = (res, w4)"
    by (cases "save_items edit_item path_of w 0 items []")
  note st = save_items_steady [OF steady_edit_item si]
  show ?thesis
  proof (cases res)
    case (Inl f)
    with assms Inr si st show ?thesis by (auto simp: edit_reconcile_def)
  next
    case (Inr paths)
    with assms \<open>checked_items data = Inr items\<close> si st show ?thesis
      by (auto simp: edit_reconcile_def reconciled_def)
  qed
qed

lemma plain_reconcile_result:
  assumes "plain_reconcile w dflt path_of m p u data = (r, w')"
  shows "env_eq w w' \<and> requests w' = requests w \<and>
         ((\<exists>msg. r = failure msg) \<or>
          (\<exists>items. loop_items w data = Inr items \<and> reconciled plain_item items w r w'))"
proof (cases "loop_items w data")
  case (Inl f)
  with assms show ?thesis by (auto simp: plain_reconcile_def)
next
  case (Inr items)
  obtain res w4 where si: "save_items plain_item path_of w 0 items [] = (res, w4)"
    by (cases "save_items plain_item path_of w 0 items []")
  note st = save_items_steady [OF steady_plain_item si]
  show ?thesis
  proof (cases res)
    case (Inl f)
    with assms Inr si st show ?thesis by (auto simp: plain_reconcile_def)
  next
    case (Inr paths)
    with assms \<open>loop_items w data = Inr items\<close> si st show ?thesis
      by (auto simp: plain_reconcile_def reconciled_def)
  qed
qed

lemma generateImage_result:
  assumes g: "generateImage w p opts = (r, w')"
  shows "((\<exists>msg. r = failure msg) \<and>
          (requests w' = requests w \<or>
           requests w' = requests w @ [Generations (generate_request p opts)])) \<or>
         (\<exists>data path_of w3.
            env_eq w w3 \<and> requests w3 = requests w @ [Generations (generate_request p opts)] \<and>
            provider w (Generations (generate_request p opts)) = Inr data \<and>
            generate_reconcile w3 path_of p data = (r, w'))"
proof -
  obtain saveDir w1 where rs: "resolveSaveDir w (o_saveDirPath opts) = (saveDir, w1)"
    by (cases "resolveSaveDir w (o_saveDirPath opts)")
  obtain e w2 where ew: "ensure_writeable w1 saveDir = (e, w2)"
    by (cases "ensure_writeable w1 saveDir")
  have env2: "env_eq w w2" and req2: "requests w2 = requests w"
    using resolveSaveDir_env [OF rs] ensure_writeable_env [OF ew] env_eq_trans by auto
  let ?rp = "generate_request p opts"
  let ?w3 = "w2\<lparr>requests := requests w2 @ [Generations ?rp]\<rparr>"
  have env3: "env_eq w ?w3" using env2 env_eq_trans env_eq_updates(3) by blast
  have prov: "provider ?w3 = provider w" using env_eq_fields(1) [OF env3] .
  show ?thesis
  proof (cases e)
    case (Some msg)
    with g rs ew req2 show ?thesis
      by (auto simp add: generateImage_def Let_def not_writeable_def)
  next
    case None
    note e = this
    show ?thesis
    proof (cases "provider w (Generations ?rp)")
      case (Inl f)
      with g rs ew e prov req2 show ?thesis by (auto simp add: generateImage_def Let_def)
    next
      case (Inr data)
      with g rs ew e prov have "\<exists>path_of. generate_reconcile ?w3 path_of p data = (r, w')"
        by (auto simp add: generateImage_def Let_def)
      with Inr env3 req2 show ?thesis by auto
    qed
  qed
qed

lemma editImage_result:
  assumes g: "editImage w p img opts = (r, w')"
  shows "((\<exists>msg. r = failure msg) \<and> requests w' = requests w) \<or>
         (\<exists>form w3.
            env_eq w w3 \<and> requests w3 = requests w @ [Edits form] \<and>
            (\<forall>m. mask_of opts = Some m \<longrightarrow>
                 (\<exists>b. files w m = Some b \<and> (''mask'', FileField b (basename m)) \<in> set form)) \<and>
            (((\<exists>msg. r = failure msg) \<and> w' = w3) \<or>
             (\<exists>data path_of.
                provider w (Edits form) = Inr data \<and> edit_reconcile w3 path_of p data = (r, w'))))"
proof -
  obtain saveDir w1 where rs: "resolveSaveDir w (o_saveDirPath opts) = (saveDir, w1)"
    by (cases "resolveSaveDir w (o_saveDirPath opts)")
  obtain e w2 where ew: "ensure_writeable w1 saveDir = (e, w2)"
    by (cases "ensure_writeable w1 saveDir")
  have env2: "env_eq w w2" and req2: "requests w2 = requests w" and files2: "files w2 = files w"
    using resolveSaveDir_env [OF rs] ensure_writeable_env [OF ew] env_eq_trans by auto
  note defs = editImage_def Let_def not_writeable_def
  show ?thesis
  proof (cases e)
    case (Some msg)
    with g rs ew req2 show ?thesis by (auto simp add: defs)
  next
    case None
    note e = this
    show ?thesis
    proof (cases "\<not> pathExists w2 img")
      case True
      with g rs ew e req2 show ?thesis by (auto simp add: defs)
    next
      case False
      note ex1 = this
      show ?thesis
      proof (cases "case mask_of opts of None \<Rightarrow> False | Some m \<Rightarrow> \<not> pathExists w2 m")
        case True
        with g rs ew e ex1 req2 show ?thesis by (auto simp add: defs)
      next
        case False
        note ex2 = this
        show ?thesis
        proof (cases "readFile w2 img")
          case (Inl f)
          with g rs ew e ex1 ex2 req2 show ?thesis by (auto simp add: defs)
        next
          case (Inr imageBuffer)
          note rd = this
          show ?thesis
          proof (cases "read_mask w2 opts")
            case (Inl f)
            with g rs ew e ex1 ex2 rd req2 show ?thesis by (auto simp add: defs)
          next
            case (Inr maskPart)
            note mp = this
            let ?form = "edit_form w2 p ''gpt-image-1'' opts @
                           [(''image'', FileField imageBuffer (basename img))] @ maskPart"
            let ?w3 = "w2\<lparr>requests := requests w2 @ [Edits ?form]\<rparr>"
            have env3: "env_eq w ?w3" using env2 env_eq_trans env_eq_updates(3) by blast
            have prov: "provider ?w3 = provider w" using env_eq_fields(1) [OF env3] .
            have req3: "requests ?w3 = requests w @ [Edits ?form]" using req2 by simp
            have mask: "\<forall>m. mask_of opts = Some m \<longrightarrow>
                   (\<exists>b. files w m = Some b \<and> (''mask'', FileField b (basename m)) \<in> set ?form)"
              using mp files2
              by (auto simp: read_mask_def readFile_def split: option.splits sum.splits)
            have "((\<exists>msg. r = failure msg) \<and> w' = ?w3) \<or>
               (\<exists>data path_of.
                  provider w (Edits ?form) = Inr data \<and> edit_reconcile ?w3 path_of p data = (r, w'))"
            proof (cases "provider w (Edits ?form)")
              case (Inl f)
              with g rs ew e ex1 ex2 rd mp prov show ?thesis by (auto simp add: defs)
            next
              case (Inr data)
              with g rs ew e ex1 ex2 rd mp prov
              have "\<exists>path_of. edit_reconcile ?w3 path_of p data = (r, w')"
                by (auto simp add: defs)
              with Inr show ?thesis by auto
            qed
            with env3 req3 mask show ?thesis by blast
          qed
        qed
      qed
    qed
  qed
qed

lemma imageToImage_result:
  assumes g: "imageToImage w img p opts = (r, w')"
  shows "(\<exists>msg. r = failure msg) \<or>
         (\<exists>form data path_of w3 dflt.
            env_eq w w3 \<and> requests w3 = requests w @ [Edits form] \<and>
            provider w (Edits form) = Inr data \<and>
            plain_reconcile w3 dflt path_of ''gpt-image-1'' p False data = (r, w'))"
proof -
  obtain saveDir w1 where rs: "resolveSaveDir w (o_saveDirPath opts) = (saveDir, w1)"
    by (cases "resolveSaveDir w (o_saveDirPath opts)")
  obtain e w2 where ew: "ensure_writeable w1 saveDir = (e, w2)"
    by (cases "ensure_writeable w1 saveDir")
  have env2: "env_eq w w2" and req2: "requests w2 = requests w"
    using resolveSaveDir_env [OF rs] ensure_writeable_env [OF ew] env_eq_trans by auto
  note defs = imageToImage_def Let_def not_writeable_def
  show ?thesis
  proof (cases e)
    case (Some msg)
    with g rs ew show ?thesis by (auto simp add: defs)
  next
    case None
    note e = this
    show ?thesis
    proof (cases "\<not> pathExists w2 img")
      case True
      with g rs ew e show ?thesis by (auto simp add: defs)
    next
      case False
      note ex1 = this
      show ?thesis
      proof (cases "readFile w2 img")
        case (Inl f)
        with g rs ew e ex1 show ?thesis by (auto simp add: defs)
      next
        case (Inr imageBuffer)
        note rd = this
        let ?form = "edit_form w2 p ''gpt-image-1'' opts @
                       [(''image'', FileField imageBuffer (basename img))]"
        let ?w3 = "w2\<lparr>requests := requests w2 @ [Edits ?form]\<rparr>"
        have env3: "env_eq w ?w3" using env2 env_eq_trans env_eq_updates(3) by blast
        have prov: "provider ?w3 = provider w" using env_eq_fields(1) [OF env3] .
        have req3: "requests ?w3 = requests w @ [Edits ?form]" using req2 by simp
        show ?thesis
        proof (cases "provider w (Edits ?form)")
          case (Inl f)
          with g rs ew e ex1 rd prov show ?thesis by (auto simp add: defs)
        next
          case (Inr data)
          with g rs ew e ex1 rd prov
          have "\<exists>path_of dflt. plain_reconcile ?w3 dflt path_of ''gpt-image-1'' p False data = (r, w')"
            by (auto simp add: defs)
          with Inr env3 req3 show ?thesis by blast
        qed
      qed
    qed
  qed
qed

lemma editMultipleImages_result:
  assumes g: "editMultipleImages w p imgs opts = (r, w')"
  shows "(\<exists>msg. r = failure msg) \<or>
         (\<exists>form data path_of w3 dflt m.
            env_eq w w3 \<and> requests w3 = requests w @ [Edits form] \<and>
            provider w (Edits form) = Inr data \<and>
            plain_reconcile w3 dflt path_of m p True data = (r, w'))"
proof -
  obtain saveDir w1 where rs: "resolveSaveDir w (o_saveDirPath opts) = (saveDir, w1)"
    by (cases "resolveSaveDir w (o_saveDirPath opts)")
  obtain e w2 where ew: "ensure_writeable w1 saveDir = (e, w2)"
    by (cases "ensure_writeable w1 saveDir")
  have env2: "env_eq w w2" and req2: "requests w2 = requests w"
    using resolveSaveDir_env [OF rs] ensure_writeable_env [OF ew] env_eq_trans by auto
  note defs = editMultipleImages_def Let_def not_writeable_def
  show ?thesis
  proof (cases e)
    case (Some msg)
    with g rs ew show ?thesis by (auto simp add: defs)
  next
    case None
    note e = this
    show ?thesis
    proof (cases "first_missing w2 imgs")
      case (Some q)
      with g rs ew e show ?thesis by (auto simp add: defs)
    next
      case None
      note ex1 = this
      show ?thesis
      proof (cases "read_images w2 imgs")
        case (Inl f)
        with g rs ew e ex1 show ?thesis by (auto simp add: defs)
      next
        case (Inr imageParts)
        note rd = this
        let ?form = "edit_form w2 p (str_or (o_model opts) ''gpt-image-1'') opts @ imageParts"
        let ?w3 = "w2\<lparr>requests := requests w2 @ [Edits ?form]\<rparr>"
        have env3: "env_eq w ?w3" using env2 env_eq_trans env_eq_updates(3) by blast
        have prov: "provider ?w3 = provider w" using env_eq_fields(1) [OF env3] .
        have req3: "requests ?w3 = requests w @ [Edits ?form]" using req2 by simp
        show ?thesis
        proof (cases "provider w (Edits ?form)")
          case (Inl f)
          with g rs ew e ex1 rd prov show ?thesis by (auto simp add: defs)
        next
          case (Inr data)
          with g rs ew e ex1 rd prov
          have "\<exists>path_of dflt m. plain_reconcile ?w3 dflt path_of m p True data = (r, w')"
            by (auto simp add: defs)
          with Inr env3 req3 show ?thesis by blast
        qed
      qed
    qed
  qed
qed

lemma loop_items_env: "env_eq w w' \<Longrightarrow> loop_items w' data = loop_items w data"
proof -
  assume e: "env_eq w w'"
  have "length_number w' = length_number w"
    by (rule ext) (simp add: length_number_def env_eq_fields(9) [OF e]
        split: option.splits json.splits)
  then show ?thesis by (simp add: loop_items_def split: option.splits json.splits)
qed

lemma loop_items_array:
  "loop_items w data = Inr items \<Longrightarrow> get_prop data ''data'' = Some (JArr xs) \<Longrightarrow>
   items = map Some xs"
  by (auto simp: loop_items_def split: if_splits)

lemma reconciled_count:
  "reconciled item_fn items w r w' \<Longrightarrow> imagePaths r \<noteq> None \<and> reported r = length items"
  by (auto simp: reconciled_def reported_def dest: save_items_length)

lemma failure_reported [simp]: "reported (failure msg) = 0"
  by (simp add: reported_def)

lemma generateImage_count:
  assumes g: "generateImage w p opts = (r, w')"
  shows "if success r
         then \<exists>data items. provider w (last (requests w')) = Inr data \<and>
                get_prop data ''data'' = Some (JArr items) \<and>
                imagePaths r \<noteq> None \<and> reported r = length items
         else imagePaths r = None \<and> error r \<noteq> None"
proof (cases "success r")
  case False
  with generateImage_result [OF g] show ?thesis 
    using generate_reconcile_result by (fastforce simp: reconciled_def)
next
  case True
  with generateImage_result [OF g] obtain data path_of w3 where
    w3: "requests w3 = requests w @ [Generations (generate_request p opts)]"
    and pr: "provider w (Generations (generate_request p opts)) = Inr data"
    and rc: "generate_reconcile w3 path_of p data = (r, w')"
    by auto
  from generate_reconcile_result [OF rc] True obtain items where
    "requests w' = requests w3" "checked_items data = Inr items"
    "reconciled generate_item items w3 r w'"
    by auto
  with w3 pr True show ?thesis
    using checked_items_array reconciled_count by fastforce
qed

lemma editImage_count:
  assumes g: "editImage w p img opts = (r, w')"
  shows "if success r
         then \<exists>data items. provider w (last (requests w')) = Inr data \<and>
                get_prop data ''data'' = Some (JArr items) \<and>
                imagePaths r \<noteq> None \<and> reported r = length items
         else imagePaths r = None \<and> error r \<noteq> None"
proof (cases "success r")
  case False
  with editImage_result [OF g] show ?thesis
    using edit_reconcile_result by (fastforce simp: reconciled_def)
next
  case True
  with editImage_result [OF g] obtain form data path_of w3 where
    w3: "requests w3 = requests w @ [Edits form]"
    and pr: "provider w (Edits form) = Inr data"
    and rc: "edit_reconcile w3 path_of p data = (r, w')"
    by auto
  from edit_reconcile_result [OF rc] True obtain items where
    "requests w' = requests w3" "checked_items data = Inr items"
    "reconciled edit_item items w3 r w'"
    by auto
  with w3 pr True show ?thesis
    using checked_items_array reconciled_count by fastforce
qed

lemma plain_count:
  assumes rc: "plain_reconcile w3 dflt path_of m p u data = (r, w')"
    and w3: "env_eq w w3" "requests w3 = requests w @ [req]" and pr: "provider w req = Inr data"
  shows "if success r
         then \<exists>data items. provider w (last (requests w')) = Inr data \<and>
                loop_items w data = Inr items \<and>
                imagePaths r \<noteq> None \<and> reported r = length items \<and>
                (\<forall>xs. get_prop data ''data'' = Some (JArr xs) \<longrightarrow> reported r = length xs)
         else imagePaths r = None \<and> error r \<noteq> None"
proof (cases "success r")
  case False
  with plain_reconcile_result [OF rc] show ?thesis by (auto simp: reconciled_def)
next
  case True
  with plain_reconcile_result [OF rc] obtain items where
    i: "requests w' = requests w3" "loop_items w3 data = Inr items"
    "reconciled plain_item items w3 r w'"
    by auto
  have l: "loop_items w data = Inr items" using i(2) loop_items_env [OF w3(1)] by simp
  have c: "imagePaths r \<noteq> None" "reported r = length items"
    using reconciled_count [OF i(3)] by simp_all
  have "\<forall>xs. get_prop data ''data'' = Some (JArr xs) \<longrightarrow> reported r = length xs"
    using loop_items_array [OF l] c by auto
  with True i(1) w3(2) pr l c show ?thesis by auto
qed

lemma imageToImage_count:
  assumes g: "imageToImage w img p opts = (r, w')"
  shows "if success r
         then \<exists>data items. provider w (last (requests w')) = Inr data \<and>
                loop_items w data = Inr items \<and>
                imagePaths r \<noteq> None \<and> reported r = length items \<and>
                (\<forall>xs. get_prop data ''data'' = Some (JArr xs) \<longrightarrow> reported r = length xs)
         else imagePaths r = None \<and> error r \<noteq> None"
proof -
  from imageToImage_result [OF g] consider (f) msg where "r = failure msg"
    | (s) form data path_of w3 dflt where "env_eq w w3" "requests w3 = requests w @ [Edits form]"
        "provider w (Edits form) = Inr data"
        "plain_reconcile w3 dflt path_of ''gpt-image-1'' p False data = (r, w')"
    by blast
  then show ?thesis
  proof cases
    case f
    then show ?thesis by simp
  next
    case s
    from plain_count [OF s(4) s(1) s(2) s(3)] show ?thesis .
  qed
qed

lemma editMultipleImages_count:
  assumes g: "editMultipleImages w p imgs opts = (r, w')"
  shows "if success r
         then \<exists>data items. provider w (last (requests w')) = Inr data \<and>
                loop_items w data = Inr items \<and>
                imagePaths r \<noteq> None \<and> reported r = length items \<and>
                (\<forall>xs. get_prop data ''data'' = Some (JArr xs) \<longrightarrow> reported r = length xs)
         else imagePaths r = None \<and> error r \<noteq> None"
proof -
  from editMultipleImages_result [OF g] consider (f) msg where "r = failure msg"
    | (s) form data path_of w3 dflt m where "env_eq w w3" "requests w3 = requests w @ [Edits form]"
        "provider w (Edits form) = Inr data"
        "plain_reconcile w3 dflt path_of m p True data = (r, w')"
    by blast
  then show ?thesis
  proof cases
    case f
    then show ?thesis by simp
  next
    case s
    from plain_count [OF s(4) s(1) s(2) s(3)] show ?thesis .
  qed
qed

section \<open>Saved paths and response items\<close>

lemma demo_two_items:
  "fst (generateImage (demo_world (response [b64_item ''AAAA'', b64_item ''BBBB'']))
          ''a red ball'' (no_options\<lparr>o_n := Some (Fin 2)\<rparr>)) =
   succeeded [''/srv/app/img-1.png'', ''/srv/app/img-2.png''] ''gpt-image-1'' ''a red ball'' None"
  by code_simp

text \<open>
  C2 (as the code has it).  In each of the four operations a successful result reports one
  saved path for each item that the loop over the provider's response visited: for
  \<open>generateImage\<close> and \<open>editImage\<close> the items of the array \<open>data.data\<close>, for the other two the
  items of \<open>loop_items\<close>, which for an array are its elements.  The requested count \<open>n\<close> is
  sent to the provider and is not compared with the answer.  A failed result reports no
  paths and carries an error message.
\<close>

theorem saved_paths_count_items:
  "(generateImage w p opts = (r, w') \<longrightarrow>
      (if success r
       then \<exists>data items. provider w (last (requests w')) = Inr data \<and>
              get_prop data ''data'' = Some (JArr items) \<and>
              imagePaths r \<noteq> None \<and> reported r = length items
       else imagePaths r = None \<and> error r \<noteq> None)) \<and>
   (editImage w p img opts = (r, w') \<longrightarrow>
      (if success r
       then \<exists>data items. provider w (last (requests w')) = Inr data \<and>
              get_prop data ''data'' = Some (JArr items) \<and>
              imagePaths r \<noteq> None \<and> reported r = length items
       else imagePaths r = None \<and> error r \<noteq> None)) \<and>
   (imageToImage w img p opts = (r, w') \<longrightarrow>
      (if success r
       then \<exists>data items. provider w (last (requests w')) = Inr data \<and>
              loop_items w data = Inr items \<and>
              imagePaths r \<noteq> None \<and> reported r = length items \<and>
              (\<forall>xs. get_prop data ''data'' = Some (JArr xs) \<longrightarrow> reported r = length xs)
       else imagePaths r = None \<and> error r \<noteq> None)) \<and>
   (editMultipleImages w p imgs opts = (r, w') \<longrightarrow>
      (if success r
       then \<exists>data items. provider w (last (requests w')) = Inr data \<and>
              loop_items w data = Inr items \<and>
              imagePaths r \<noteq> None \<and> reported r = length items \<and>
              (\<forall>xs. get_prop data ''data'' = Some (JArr xs) \<longrightarrow> reported r = length xs)
       else imagePaths r = None \<and> error r \<noteq> None))"
  using generateImage_count [of w p opts r w'] editImage_count [of w p img opts r w']
    imageToImage_count [of w img p opts r w'] editMultipleImages_count [of w p imgs opts r w']
  by blast

theorem saved_paths_count_items_witness:
  "success (fst (generateImage (demo_world (response [b64_item ''AAAA'', b64_item ''BBBB'']))
             ''a red ball'' (no_options\<lparr>o_n := Some (Fin 2)\<rparr>))) \<and>
   reported (fst (generateImage (demo_world (response [b64_item ''AAAA'', b64_item ''BBBB'']))
             ''a red ball'' (no_options\<lparr>o_n := Some (Fin 2)\<rparr>))) = 2 \<and>
   (\<exists>data items.
      provider (demo_world (response [b64_item ''AAAA'', b64_item ''BBBB'']))
        (last (requests (snd (generateImage
           (demo_world (response [b64_item ''AAAA'', b64_item ''BBBB'']))
           ''a red ball'' (no_options\<lparr>o_n := Some (Fin 2)\<rparr>))))) = Inr data \<and>
      get_prop data ''data'' = Some (JArr items) \<and>
      reported (fst (generateImage (demo_world (response [b64_item ''AAAA'', b64_item ''BBBB'']))
             ''a red ball'' (no_options\<lparr>o_n := Some (Fin 2)\<rparr>))) = length items)"
proof -
  define W where "W = demo_world (response [b64_item ''AAAA'', b64_item ''BBBB''])"
  define G where "G = generateImage W ''a red ball'' (no_options\<lparr>o_n := Some (Fin 2)\<rparr>)"
  have s: "success (fst G)" "reported (fst G) = 2"
    using demo_two_items by (simp_all add: G_def W_def reported_def)
  have g: "generateImage W ''a red ball'' (no_options\<lparr>o_n := Some (Fin 2)\<rparr>) = (fst G, snd G)"
    by (simp add: G_def)
  note t = saved_paths_count_items [of W "''a red ball''" "no_options\<lparr>o_n := Some (Fin 2)\<rparr>"
      "fst G" "snd G" "''/srv/app/in.png''" "[]", THEN conjunct1, THEN mp, OF g]
  from t s(1) have "\<exists>data items. provider W (last (requests (snd G))) = Inr data \<and>
      get_prop data ''data'' = Some (JArr items) \<and> reported (fst G) = length items"
    by auto
  with s show ?thesis unfolding G_def W_def by blast
qed

text \<open>
  C2, counterexample: two images are requested (\<open>n = 2\<close> is what the request carries), the
  provider answers with one item, and \<open>generateImage\<close> succeeds with one saved path.
\<close>

theorem one_path_for_two_requested:
  "success (fst (generateImage (demo_world (response [b64_item ''AAAA'']))
             ''a red ball'' (no_options\<lparr>o_n := Some (Fin 2)\<rparr>))) \<and>
   imagePaths (fst (generateImage (demo_world (response [b64_item ''AAAA'']))
             ''a red ball'' (no_options\<lparr>o_n := Some (Fin 2)\<rparr>))) = Some [''/srv/app/img-1.png''] \<and>
   map (\<lambda>q. case q of Generations rp \<Rightarrow> rp_n rp | Edits form \<Rightarrow> NaN)
     (requests (snd (generateImage (demo_world (response [b64_item ''AAAA'']))
             ''a red ball'' (no_options\<lparr>o_n := Some (Fin 2)\<rparr>)))) = [Fin 2]"
  by code_simp

section \<open>A failing item fails the batch\<close>

lemma bad_item_env: "env_eq w w' \<Longrightarrow> bad_item w' item = bad_item w item"
  by (simp add: bad_item_def env_eq_fields)

lemma generate_item_ok:
  "generate_item w path_of item = (Inr p, w') \<Longrightarrow> \<not> bad_item w item"
  by (auto simp: generate_item_def generate_decode_def bad_item_def
      split: if_splits sum.splits option.splits json.splits)

lemma edit_item_ok:
  "edit_item w path_of item = (Inr p, w') \<Longrightarrow> \<not> bad_item w item"
  by (auto simp: edit_item_def bad_item_def Let_def
      split: if_splits sum.splits option.splits json.splits)

lemma save_items_no_bad:
  assumes ok: "\<forall>w q item p w'. item_fn w q item = (Inr p, w') \<longrightarrow> \<not> bad_item w item"
    and st: "steady item_fn"
  shows "save_items item_fn path_of w i items acc = (Inr paths, w') \<Longrightarrow>
         item \<in> set items \<Longrightarrow> \<not> bad_item w item"
proof (induction items arbitrary: w i acc)
  case Nil
  then show ?case by simp
next
  case (Cons x rest)
  obtain res w1 where s: "item_fn w (path_of i) x = (res, w1)"
    by (cases "item_fn w (path_of i) x")
  with Cons.prems(1) obtain q where q: "res = Inr q"
    and r: "save_items item_fn path_of w1 (Suc i) rest (acc @ [q]) = (Inr paths, w')"
    by (cases res) auto
  from st s have e: "env_eq w w1" unfolding steady_def by blast
  show ?case
  proof (cases "item = x")
    case True
    with ok s q show ?thesis by blast
  next
    case False
    with Cons.prems(2) have "item \<in> set rest" by simp
    from Cons.IH [OF r this] bad_item_env [OF e] show ?thesis by simp
  qed
qed

lemma reconciled_no_bad_generate:
  "reconciled generate_item items w r w' \<Longrightarrow> item \<in> set items \<Longrightarrow> \<not> bad_item w item"
  unfolding reconciled_def
  using save_items_no_bad [of generate_item, OF _ steady_generate_item] generate_item_ok
  by blast

lemma reconciled_no_bad_edit:
  "reconciled edit_item items w r w' \<Longrightarrow> item \<in> set items \<Longrightarrow> \<not> bad_item w item"
  unfolding reconciled_def
  using save_items_no_bad [of edit_item, OF _ steady_edit_item] edit_item_ok
  by blast

lemma generateImage_all_or_nothing:
  assumes g: "generateImage w p opts = (r, w')"
    and d: "provider w (last (requests w')) = Inr data"
       "get_prop data ''data'' = Some (JArr items)"
    and b: "item \<in> set items" "bad_item w item"
  shows "\<not> success r \<and> error r \<noteq> None \<and> imagePaths r = None"
proof -
  have "\<not> success r"
  proof
    assume s: "success r"
    with generateImage_result [OF g] obtain data' path_of w3 where
      w3: "env_eq w w3" "requests w3 = requests w @ [Generations (generate_request p opts)]"
      and pr: "provider w (Generations (generate_request p opts)) = Inr data'"
      and rc: "generate_reconcile w3 path_of p data' = (r, w')"
      by auto
    from generate_reconcile_result [OF rc] s obtain items' where
      i: "requests w' = requests w3" "checked_items data' = Inr items'"
      "reconciled generate_item items' w3 r w'"
      by auto
    from i(1) w3(2) pr d(1) have "data' = data" by simp
    with checked_items_array [OF i(2)] d(2) have "items' = items" by simp
    with reconciled_no_bad_generate [OF i(3)] b(1) have "\<not> bad_item w3 item" by simp
    with bad_item_env [OF w3(1)] b(2) show False by simp
  qed
  with generateImage_count [OF g] show ?thesis by simp
qed

lemma editImage_all_or_nothing:
  assumes g: "editImage w p img opts = (r, w')"
    and d: "provider w (last (requests w')) = Inr data"
       "get_prop data ''data'' = Some (JArr items)"
    and b: "item \<in> set items" "bad_item w item"
  shows "\<not> success r \<and> error r \<noteq> None \<and> imagePaths r = None"
proof -
  have "\<not> success r"
  proof
    assume s: "success r"
    with editImage_result [OF g] obtain form data' path_of w3 where
      w3: "env_eq w w3" "requests w3 = requests w @ [Edits form]"
      and pr: "provider w (Edits form) = Inr data'"
      and rc: "edit_reconcile w3 path_of p data' = (r, w')"
      by auto
    from edit_reconcile_result [OF rc] s obtain items' where
      i: "requests w' = requests w3" "checked_items data' = Inr items'"
      "reconciled edit_item items' w3 r w'"
      by auto
    from i(1) w3(2) pr d(1) have "data' = data" by simp
    with checked_items_array [OF i(2)] d(2) have "items' = items" by simp
    with reconciled_no_bad_edit [OF i(3)] b(1) have "\<not> bad_item w3 item" by simp
    with bad_item_env [OF w3(1)] b(2) show False by simp
  qed
  with editImage_count [OF g] show ?thesis by simp
qed

lemma write_image_files:
  "write_image w p b = (Inr q, w') \<Longrightarrow> files w' p = Some b"
  by (auto simp: write_image_def writeFile_def split: option.splits)

lemma save_items_append:
  "save_items item_fn path_of w i (xs @ ys) acc =
     (case save_items item_fn path_of w i xs acc of
        (Inl f, w') \<Rightarrow> (Inl f, w')
      | (Inr acc', w') \<Rightarrow> save_items item_fn path_of w' (i + length xs) ys acc')"
  by (induction xs arbitrary: w i acc) (auto split: prod.splits sum.splits)

text \<open>
  The files of the items before a failing one stay: the loop over \<open>good @ item # rest\<close>
  ends in the world that saving \<open>good\<close> alone leaves, when \<open>item\<close> faults without writing.
\<close>

lemma save_items_keeps_earlier_writes:
  assumes "save_items item_fn path_of w i good acc = (Inr acc', w1)"
    and "item_fn w1 (path_of (i + length good)) item = (Inl f, w1)"
  shows "save_items item_fn path_of w i (good @ item # rest) acc = (Inl f, w1)"
  using assms by (simp add: save_items_append)

text \<open>
  C3 (as the code has it).  In \<open>generateImage\<close> and \<open>editImage\<close>, when the provider's
  response holds an item that cannot be processed (no recognised field, empty data, data
  that does not decode, a reference that cannot be fetched), the result is a failure with
  an error message and without paths, wherever the item stands in the array.
\<close>

theorem bad_item_fails_batch:
  "(generateImage w p opts = (r, w') \<and> provider w (last (requests w')) = Inr data \<and>
    get_prop data ''data'' = Some (JArr items) \<and> item \<in> set items \<and> bad_item w item
      \<longrightarrow> \<not> success r \<and> error r \<noteq> None \<and> imagePaths r = None) \<and>
   (editImage w p img opts = (r, w') \<and> provider w (last (requests w')) = Inr data \<and>
    get_prop data ''data'' = Some (JArr items) \<and> item \<in> set items \<and> bad_item w item
      \<longrightarrow> \<not> success r \<and> error r \<noteq> None \<and> imagePaths r = None)"
  using generateImage_all_or_nothing [of w p opts r w' data items item]
    editImage_all_or_nothing [of w p img opts r w' data items item]
  by blast

theorem bad_item_fails_batch_witness:
  "bad_item (demo_world (response [b64_item ''AAAA'', JObj []])) (JObj []) \<and>
   JObj [] \<in> set [b64_item ''AAAA'', JObj []] \<and>
   \<not> success (fst (generateImage (demo_world (response [b64_item ''AAAA'', JObj []]))
                  ''a red ball'' (no_options\<lparr>o_n := Some (Fin 2)\<rparr>))) \<and>
   error (fst (generateImage (demo_world (response [b64_item ''AAAA'', JObj []]))
                  ''a red ball'' (no_options\<lparr>o_n := Some (Fin 2)\<rparr>))) \<noteq> None \<and>
   imagePaths (fst (generateImage (demo_world (response [b64_item ''AAAA'', JObj []]))
                  ''a red ball'' (no_options\<lparr>o_n := Some (Fin 2)\<rparr>))) = None"
proof -
  define W where "W = demo_world (response [b64_item ''AAAA'', JObj []])"
  define G where "G = generateImage W ''a red ball'' (no_options\<lparr>o_n := Some (Fin 2)\<rparr>)"
  have b: "bad_item W (JObj [])"
    unfolding W_def by code_simp
  have g: "generateImage W ''a red ball'' (no_options\<lparr>o_n := Some (Fin 2)\<rparr>) = (fst G, snd G)"
    by (simp add: G_def)
  have pr: "provider W (last (requests (snd G))) = Inr (response [b64_item ''AAAA'', JObj []])"
    by (simp add: W_def demo_world_def)
  have d: "get_prop (response [b64_item ''AAAA'', JObj []]) ''data'' =
             Some (JArr [b64_item ''AAAA'', JObj []])"
    by (simp add: response_def)
  have m: "JObj [] \<in> set [b64_item ''AAAA'', JObj []]" by simp
  note t = bad_item_fails_batch [of W "''a red ball''" "no_options\<lparr>o_n := Some (Fin 2)\<rparr>"
      "fst G" "snd G" "response [b64_item ''AAAA'', JObj []]" "[b64_item ''AAAA'', JObj []]"
      "JObj []" "''/srv/app/in.png''", THEN conjunct1, THEN mp]
  from t g pr d m b have "\<not> success (fst G) \<and> error (fst G) \<noteq> None \<and> imagePaths (fst G) = None"
    by blast
  with b m show ?thesis unfolding G_def W_def by blast
qed

text \<open>
  C3, counterexample: the second item of the response has no image data, so the call
  fails; the file of the first item, which did not exist before, is on disk afterwards.
\<close>

theorem partial_result_stays_on_disk:
  "\<not> success (fst (generateImage (demo_world (response [b64_item ''AAAA'', JObj []]))
                  ''a red ball'' (no_options\<lparr>o_n := Some (Fin 2)\<rparr>))) \<and>
   files (snd (generateImage (demo_world (response [b64_item ''AAAA'', JObj []]))
         ''a red ball'' (no_options\<lparr>o_n := Some (Fin 2)\<rparr>))) ''/srv/app/img-1.png'' = Some ''AAAA'' \<and>
   files (demo_world (response [b64_item ''AAAA'', JObj []])) ''/srv/app/img-1.png'' = None"
  by code_simp

section \<open>An empty or missing data array\<close>

lemma checked_items_missing:
  "get_prop data ''data'' = None \<or> get_prop data ''data'' = Some (JArr []) \<Longrightarrow>
   isl (checked_items data)"
  by (auto simp: checked_items_def)

lemma guarded_reconcile_empty:
  assumes "get_prop data ''data'' = None \<or> get_prop data ''data'' = Some (JArr [])"
  shows "\<not> success (fst (generate_reconcile w path_of p data)) \<and>
         imagePaths (fst (generate_reconcile w path_of p data)) = None \<and>
         \<not> success (fst (edit_reconcile w path_of p data)) \<and>
         imagePaths (fst (edit_reconcile w path_of p data)) = None"
  using checked_items_missing [OF assms]
  by (cases "checked_items data") (simp_all add: generate_reconcile_def edit_reconcile_def)

lemma plain_reconcile_empty:
  "get_prop data ''data'' = Some (JArr []) \<Longrightarrow>
   plain_reconcile w dflt path_of m p u data =
     (succeeded [] m p (if u then usage_of data else None), w)"
  by (auto simp: plain_reconcile_def loop_items_def)

text \<open>
  C6: the guard on \<open>data.data\<close> stands in \<open>generateImage\<close> and \<open>editImage\<close> only.  With a
  stub provider that answers \<open>{"data": []}\<close>, \<open>editMultipleImages\<close> and \<open>imageToImage\<close> run
  their loop zero times and return a successful result with no paths.
\<close>

theorem empty_data_array_succeeds:
  "fst (editMultipleImages (demo_world (response [])) ''a red ball'' [''/srv/app/in.png'']
          no_options) = succeeded [] ''gpt-image-1'' ''a red ball'' None \<and>
   fst (imageToImage (demo_world (response [])) ''/srv/app/in.png'' ''a red ball''
          no_options) = succeeded [] ''gpt-image-1'' ''a red ball'' None \<and>
   success (succeeded [] ''gpt-image-1'' ''a red ball'' None)"
  by code_simp

section \<open>The compression option\<close>

lemma generateImage_request:
  assumes g: "generateImage w p opts = (r, w')"
  shows "requests w' = requests w \<or>
         requests w' = requests w @ [Generations (generate_request p opts)]"
proof -
  from generateImage_result [OF g] consider
    (f) "requests w' = requests w \<or>
         requests w' = requests w @ [Generations (generate_request p opts)]"
    | (s) data path_of w3 where
        "requests w3 = requests w @ [Generations (generate_request p opts)]"
        "generate_reconcile w3 path_of p data = (r, w')"
    by blast
  then show ?thesis
  proof cases
    case f
    then show ?thesis .
  next
    case s
    with generate_reconcile_result [OF s(2)] show ?thesis by simp
  qed
qed

lemma str_or_png:
  "str_or f ''png'' = ''webp'' \<longleftrightarrow> f = Some ''webp''"
  "str_or f ''png'' = ''jpeg'' \<longleftrightarrow> f = Some ''jpeg''"
  by (auto simp: str_or_def split: option.splits)

lemma js_le_range: "js_le (Fin 0) c \<and> js_le c (Fin 100) \<longleftrightarrow> in_0_100 c"
  by (cases c) (auto simp: js_le_def in_0_100_def)

text \<open>
  C7 (as the code has it).  The payload of \<open>generateImage\<close> carries \<open>output_compression\<close>
  exactly when the caller gave one, \<open>output_format\<close> is \<open>jpeg\<close> or \<open>webp\<close>, and the value is a
  number from 0 to 100, whole or not; then it is the caller's value.  That payload is the
  only request the operation sends.
\<close>

theorem compression_in_generate_request:
  "(rp_output_compression (generate_request p opts) = Some c \<longleftrightarrow>
      o_output_compression opts = Some c \<and>
      (o_output_format opts = Some ''jpeg'' \<or> o_output_format opts = Some ''webp'') \<and>
      in_0_100 c) \<and>
   (generateImage w p opts = (r, w') \<longrightarrow>
      requests w' = requests w \<or>
      requests w' = requests w @ [Generations (generate_request p opts)])"
proof -
  have "rp_output_compression (generate_request p opts) = Some c \<longleftrightarrow>
      o_output_compression opts = Some c \<and>
      (o_output_format opts = Some ''jpeg'' \<or> o_output_format opts = Some ''webp'') \<and>
      in_0_100 c"
    using js_le_range [of c]
    by (auto simp: generate_request_def Let_def str_or_png split: option.splits)
  then show ?thesis using generateImage_request [of w p opts r w'] by blast
qed

theorem compression_in_generate_request_witness:
  "o_output_compression (no_options\<lparr>o_output_format := Some ''webp'',
                                    o_output_compression := Some (Fin 80)\<rparr>) = Some (Fin 80) \<and>
   in_0_100 (Fin 80) \<and>
   rp_output_compression (generate_request ''a red ball''
      (no_options\<lparr>o_output_format := Some ''webp'', o_output_compression := Some (Fin 80)\<rparr>))
     = Some (Fin 80)"
proof -
  define opts where
    "opts = no_options\<lparr>o_output_format := Some ''webp'', o_output_compression := Some (Fin 80)\<rparr>"
  have h: "o_output_compression opts = Some (Fin 80)" "o_output_format opts = Some ''webp''"
    "in_0_100 (Fin 80)"
    by (simp_all add: opts_def in_0_100_def)
  note t = compression_in_generate_request [of "''a red ball''" opts "Fin 80" "demo_world JNull"
      "failure []" "demo_world JNull", THEN conjunct1]
  from t h have "rp_output_compression (generate_request ''a red ball'' opts) = Some (Fin 80)"
    by simp
  with h show ?thesis unfolding opts_def by simp
qed

text \<open>
  C7, counterexample: with \<open>output_format = jpeg\<close> the value 50.5, which is no integer, is
  put into the payload.
\<close>

theorem non_integer_compression_sent:
  "rp_output_compression (generate_request ''a red ball''
      (no_options\<lparr>o_output_format := Some ''jpeg'', o_output_compression := Some (Fin (101 / 2))\<rparr>))
     = Some (Fin (101 / 2)) \<and>
   \<not> is_integer (Fin (101 / 2))"
  by (simp add: generate_request_def no_options_def str_or_def js_le_def is_integer_def Let_def
      floor_rat_numeral_div)

text \<open>
  The editing operations build their form another way: a missing value becomes 100, and
  any value other than zero is sent, whatever its range.
\<close>

lemma edit_form_compression:
  "(''output_compression'', Field (num_str w (Fin 150))) \<in>
     set (edit_form w p m (no_options\<lparr>o_output_format := Some ''jpeg'',
                                      o_output_compression := Some (Fin 150)\<rparr>))"
  "(''output_compression'', Field (num_str w (Fin 100))) \<in>
     set (edit_form w p m (no_options\<lparr>o_output_format := Some ''jpeg''\<rparr>))"
  by (simp_all add: edit_form_def no_options_def str_or_def num_or_def Let_def)

section \<open>The \<open>edit_image\<close> tool: mask and shapes\<close>

text \<open>
  C8.  When \<open>edit_image\<close> is called with a mask path and a non-empty list of shapes, the
  handler returns the text of the caller error at once: the world is the one it started
  in, so no request has been sent to the provider and nothing has been written.
\<close>

theorem mask_and_shapes_rejected:
  "a_mask args = Some m \<Longrightarrow> m \<noteq> [] \<Longrightarrow> a_mask_shapes args = Some shapes \<Longrightarrow> shapes \<noteq> [] \<Longrightarrow>
   edit_image_handler w args = (Inr mutually_exclusive, w) \<and>
   requests (snd (edit_image_handler w args)) = requests w"
  by (simp add: edit_image_handler_def has_mask_def has_shapes_def Let_def)

theorem mask_and_shapes_rejected_witness:
  "a_mask (edit_demo\<lparr>a_mask := Some ''mask.png'', a_mask_shapes := Some [JObj []]\<rparr>)
     = Some ''mask.png'' \<and> ''mask.png'' \<noteq> [] \<and>
   a_mask_shapes (edit_demo\<lparr>a_mask := Some ''mask.png'', a_mask_shapes := Some [JObj []]\<rparr>)
     = Some [JObj []] \<and> [JObj []] \<noteq> [] \<and>
   edit_image_handler (demo_world (response [b64_item ''AAAA'']))
     (edit_demo\<lparr>a_mask := Some ''mask.png'', a_mask_shapes := Some [JObj []]\<rparr>)
     = (Inr mutually_exclusive, demo_world (response [b64_item ''AAAA''])) \<and>
   requests (snd (edit_image_handler (demo_world (response [b64_item ''AAAA'']))
     (edit_demo\<lparr>a_mask := Some ''mask.png'', a_mask_shapes := Some [JObj []]\<rparr>))) = []"
proof -
  define A where "A = edit_demo\<lparr>a_mask := Some ''mask.png'', a_mask_shapes := Some [JObj []]\<rparr>"
  define W where "W = demo_world (response [b64_item ''AAAA''])"
  have h: "a_mask A = Some ''mask.png''" "''mask.png'' \<noteq> []"
    "a_mask_shapes A = Some [JObj []]" "[JObj []] \<noteq> []"
    by (simp_all add: A_def)
  have r: "requests W = []" by (simp add: W_def demo_world_def)
  from mask_and_shapes_rejected [OF h, of W] h r show ?thesis
    unfolding A_def W_def by simp
qed

lemma path_resolve_not_Nil: "path_resolve wd a b \<noteq> []"
  by (simp add: path_resolve_def Let_def split_beta)

lemma absolute_of_not_Nil: "m \<noteq> [] \<Longrightarrow> absolute_of w m \<noteq> []"
  by (simp add: absolute_of_def path_resolve_not_Nil)

lemma edit_response_not_exclusive:
  "edit_response w img m f r \<noteq> mutually_exclusive"
  by (simp add: edit_response_def mutually_exclusive_def Let_def)

lemma editImage_requests:
  assumes g: "editImage w p img opts = (r, w')"
  shows "requests w' = requests w \<or>
         (\<exists>form. requests w' = requests w @ [Edits form] \<and>
            (\<forall>m. mask_of opts = Some m \<longrightarrow>
               (\<exists>b. files w m = Some b \<and> (''mask'', FileField b (basename m)) \<in> set form)))"
proof -
  from editImage_result [OF g] consider (a) "requests w' = requests w"
    | (b) form w3 where "requests w3 = requests w @ [Edits form]"
        "\<forall>m. mask_of opts = Some m \<longrightarrow>
               (\<exists>b. files w m = Some b \<and> (''mask'', FileField b (basename m)) \<in> set form)"
        "w' = w3 \<or> (\<exists>data path_of. edit_reconcile w3 path_of p data = (r, w'))"
    by blast
  then show ?thesis
  proof cases
    case a
    then show ?thesis by simp
  next
    case b
    from b(3) have "requests w' = requests w3"
      using edit_reconcile_result by blast
    with b(1,2) show ?thesis by auto
  qed
qed

text \<open>
  C10.  An empty list of shapes counts as no list: with a mask path and \<open>mask_shapes = []\<close>
  the handler does what it does when \<open>mask_shapes\<close> is absent.  It does not answer with the
  mutual-exclusion error, it rasterises nothing, and it calls \<open>editImage\<close> with the absolute
  path of the mask; any request that reaches the provider carries the bytes of that file
  as its \<open>mask\<close> part.
\<close>

theorem empty_shapes_use_mask_file:
  "a_mask args = Some m \<Longrightarrow> m \<noteq> [] \<Longrightarrow> a_mask_shapes args = Some [] \<Longrightarrow>
   edit_image_handler w args = edit_image_handler w (args\<lparr>a_mask_shapes := None\<rparr>) \<and>
   edit_image_handler w args =
     (let (result, w2) = editImage w (a_prompt args) (absolute_of w (a_imagePath args))
                           (edit_options args (Some (absolute_of w m)))
      in (Inr (edit_response w2 (absolute_of w (a_imagePath args)) (Some (absolute_of w m))
                 False result), w2)) \<and>
   fst (edit_image_handler w args) \<noteq> Inr mutually_exclusive \<and>
   (requests (snd (edit_image_handler w args)) = requests w \<or>
    (\<exists>form b. requests (snd (edit_image_handler w args)) = requests w @ [Edits form] \<and>
       files w (absolute_of w m) = Some b \<and>
       (''mask'', FileField b (basename (absolute_of w m))) \<in> set form))"
proof -
  assume a: "a_mask args = Some m" "m \<noteq> []" "a_mask_shapes args = Some []"
  let ?img = "absolute_of w (a_imagePath args)"
  let ?opts = "edit_options args (Some (absolute_of w m))"
  obtain r w2 where e: "editImage w (a_prompt args) ?img ?opts = (r, w2)"
    by (cases "editImage w (a_prompt args) ?img ?opts")
  have same: "edit_options (args\<lparr>a_mask_shapes := None\<rparr>) = edit_options args"
    by (rule ext) (simp add: edit_options_def)
  have h: "edit_image_handler w args = (Inr (edit_response w2 ?img (Some (absolute_of w m)) False r), w2)"
    using a e by (simp add: edit_image_handler_def has_mask_def has_shapes_def Let_def)
  have h': "edit_image_handler w (args\<lparr>a_mask_shapes := None\<rparr>) =
      (Inr (edit_response w2 ?img (Some (absolute_of w m)) False r), w2)"
    using a e same by (simp add: edit_image_handler_def has_mask_def has_shapes_def Let_def)
  have mo: "mask_of ?opts = Some (absolute_of w m)"
    using absolute_of_not_Nil [OF a(2), of w] by (simp add: mask_of_def edit_options_def)
  from editImage_requests [OF e] mo
  have q: "requests w2 = requests w \<or>
    (\<exists>form b. requests w2 = requests w @ [Edits form] \<and>
       files w (absolute_of w m) = Some b \<and>
       (''mask'', FileField b (basename (absolute_of w m))) \<in> set form)"
    by auto
  from h h' e q show ?thesis
    by (simp add: edit_response_not_exclusive)
qed

lemma demo_mask_request:
  "map (\<lambda>q. case q of Edits form \<Rightarrow> map snd (filter (\<lambda>kv. fst kv = ''mask'') form)
                     | Generations rp \<Rightarrow> [])
     (requests (snd (edit_image_handler (demo_world (response [b64_item ''AAAA'']))
        (edit_demo\<lparr>a_mask := Some ''mask.png'', a_mask_shapes := Some []\<rparr>)))) =
   [[FileField ''MASK'' ''mask.png'']]"
  by code_simp

theorem empty_shapes_use_mask_file_witness:
  "a_mask (edit_demo\<lparr>a_mask := Some ''mask.png'', a_mask_shapes := Some []\<rparr>)
     = Some ''mask.png'' \<and> ''mask.png'' \<noteq> [] \<and>
   a_mask_shapes (edit_demo\<lparr>a_mask := Some ''mask.png'', a_mask_shapes := Some []\<rparr>) = Some [] \<and>
   edit_image_handler (demo_world (response [b64_item ''AAAA'']))
     (edit_demo\<lparr>a_mask := Some ''mask.png'', a_mask_shapes := Some []\<rparr>) =
   edit_image_handler (demo_world (response [b64_item ''AAAA'']))
     (edit_demo\<lparr>a_mask := Some ''mask.png''\<rparr>) \<and>
   fst (edit_image_handler (demo_world (response [b64_item ''AAAA'']))
     (edit_demo\<lparr>a_mask := Some ''mask.png'', a_mask_shapes := Some []\<rparr>))
     \<noteq> Inr mutually_exclusive"
proof -
  define A where "A = edit_demo\<lparr>a_mask := Some ''mask.png'', a_mask_shapes := Some []\<rparr>"
  define W where "W = demo_world (response [b64_item ''AAAA''])"
  have h: "a_mask A = Some ''mask.png''" "''mask.png'' \<noteq> []" "a_mask_shapes A = Some []"
    by (simp_all add: A_def)
  have n: "A\<lparr>a_mask_shapes := None\<rparr> = edit_demo\<lparr>a_mask := Some ''mask.png''\<rparr>"
    by (simp add: A_def edit_demo_def)
  from empty_shapes_use_mask_file [OF h, of W]
  have "edit_image_handler W A = edit_image_handler W (A\<lparr>a_mask_shapes := None\<rparr>)"
    "fst (edit_image_handler W A) \<noteq> Inr mutually_exclusive"
    by blast+
  with h n show ?thesis unfolding A_def W_def by simp
qed

section \<open>Rasterising shapes\<close>

lemma quoted_not_Nil [simp]: "quoted s \<noteq> []"
  by (simp add: quoted_def)

lemma is_number_field: "is_number (get_prop d k) \<longleftrightarrow> number_field d k \<noteq> None"
  by (cases d) (auto simp: number_field_def split: option.splits json.splits)

lemma number_field_scaled:
  "number_field d k = Some x \<Longrightarrow> scaled w (get_prop d k) n = denormalized w x n"
  by (cases d) (auto simp: number_field_def scaled_def denormalized_def
      split: option.splits json.splits)

lemma number_field_truthy: "number_field d k = Some x \<Longrightarrow> truthy (Some d)"
  by (cases d) (auto simp: number_field_def)

lemma number_field_falsy: "\<not> truthy (Some d) \<Longrightarrow> number_field d k = None"
  by (cases d) (auto simp: number_field_def)

lemma valid_point_parse: "valid_point p \<longleftrightarrow> parse_point p \<noteq> None"
  by (cases p rule: valid_point.cases) auto

lemma point_str_parse:
  "parse_point p = Some (a, b) \<Longrightarrow>
   point_str w iw ih p = denormalized w a iw @ '','' @ denormalized w b ih"
  by (cases p rule: parse_point.cases) (auto simp: scaled_def denormalized_def)

lemma points_text:
  "list_all (\<lambda>p. parse_point p \<noteq> None) ps \<Longrightarrow>
   map (point_str w iw ih) ps =
   map (\<lambda>(a, b). denormalized w a iw @ '','' @ denormalized w b ih)
     (map (\<lambda>p. the (parse_point p)) ps)"
proof (induction ps)
  case Nil
  then show ?case by simp
next
  case (Cons p ps)
  from Cons.prems obtain a b where "parse_point p = Some (a, b)" by auto
  with Cons point_str_parse [of p a b w iw ih] show ?case by simp
qed

lemma points_field_polygon:
  "get_prop d ''points'' = Some (JArr ps) \<Longrightarrow>
   points_field d =
     (if list_ex (\<lambda>p. \<not> valid_point p) ps then None
      else Some (map (\<lambda>p. the (parse_point p)) ps))"
  by (cases d) (auto simp: points_field_def list_all_iff list_ex_iff valid_point_parse)

lemma points_field_none:
  "\<forall>ps. get_prop d ''points'' \<noteq> Some (JArr ps) \<Longrightarrow> points_field d = None"
  by (cases d) (auto simp: points_field_def split: option.splits json.splits)

lemma rectangle_svg:
  assumes "map_of kvs ''details'' = Some d" "map_of kvs ''type'' = Some (JStr ''rectangle'')"
  shows "shape_svg w iw ih (JObj kvs) =
         Inr (case parse_shape (JObj kvs) of None \<Rightarrow> [] | Some sh \<Rightarrow> element w iw ih sh)"
proof (cases "truthy (Some d)")
  case False
  with assms show ?thesis
    by (simp add: shape_svg_def parse_shape_def number_field_falsy)
next
  case True
  show ?thesis
  proof (cases "number_field d ''x'' = None \<or> number_field d ''y'' = None \<or>
                number_field d ''width'' = None \<or> number_field d ''height'' = None")
    case True
    with assms \<open>truthy (Some d)\<close> show ?thesis
      by (auto simp: shape_svg_def parse_shape_def is_number_field Let_def
          split: option.splits)
  next
    case False
    then obtain x y wd ht where n: "number_field d ''x'' = Some x" "number_field d ''y'' = Some y"
      "number_field d ''width'' = Some wd" "number_field d ''height'' = Some ht"
      by auto
    with assms \<open>truthy (Some d)\<close> show ?thesis
      by (simp add: shape_svg_def parse_shape_def is_number_field Let_def number_field_scaled)
  qed
qed

lemma circle_svg:
  assumes "map_of kvs ''details'' = Some d" "map_of kvs ''type'' = Some (JStr ''circle'')"
  shows "shape_svg w iw ih (JObj kvs) =
         Inr (case parse_shape (JObj kvs) of None \<Rightarrow> [] | Some sh \<Rightarrow> element w iw ih sh)"
proof (cases "truthy (Some d)")
  case False
  with assms show ?thesis
    by (simp add: shape_svg_def parse_shape_def number_field_falsy)
next
  case True
  show ?thesis
  proof (cases "number_field d ''cx'' = None \<or> number_field d ''cy'' = None \<or>
                number_field d ''radius'' = None")
    case True
    with assms \<open>truthy (Some d)\<close> show ?thesis
      by (auto simp: shape_svg_def parse_shape_def is_number_field Let_def
          split: option.splits)
  next
    case False
    then obtain cx cy r where n: "number_field d ''cx'' = Some cx"
      "number_field d ''cy'' = Some cy" "number_field d ''radius'' = Some r"
      by auto
    with assms \<open>truthy (Some d)\<close> show ?thesis
      by (simp add: shape_svg_def parse_shape_def is_number_field Let_def number_field_scaled)
  qed
qed

lemma polygon_svg:
  assumes "map_of kvs ''details'' = Some d" "map_of kvs ''type'' = Some (JStr ''polygon'')"
  shows "shape_svg w iw ih (JObj kvs) =
         Inr (case parse_shape (JObj kvs) of None \<Rightarrow> [] | Some sh \<Rightarrow> element w iw ih sh)"
proof (cases "\<exists>ps. get_prop d ''points'' = Some (JArr ps)")
  case False
  then have "points_field d = None" by (simp add: points_field_none)
  with assms False show ?thesis
    by (auto simp: shape_svg_def parse_shape_def Let_def split: option.splits json.splits)
next
  case True
  then obtain ps where ps: "get_prop d ''points'' = Some (JArr ps)" by blast
  then have t: "truthy (Some d)" by (cases d) auto
  show ?thesis
  proof (cases "list_ex (\<lambda>p. \<not> valid_point p) ps")
    case True
    with assms ps t show ?thesis
      by (simp add: shape_svg_def parse_shape_def Let_def points_field_polygon)
  next
    case False
    then have "list_all (\<lambda>p. parse_point p \<noteq> None) ps"
      by (simp add: list_all_iff list_ex_iff valid_point_parse)
    from points_text [OF this]
    have eq: "map (point_str w iw ih) ps =
        map (\<lambda>(a, b). denormalized w a iw @ '','' @ denormalized w b ih)
          (map (\<lambda>p. the (parse_point p)) ps)" .
    from assms ps t False show ?thesis
      by (simp add: shape_svg_def parse_shape_def Let_def points_field_polygon eq)
  qed
qed

lemma shape_svg_parsed:
  assumes "s \<noteq> JNull"
  shows "shape_svg w iw ih s =
         Inr (case parse_shape s of None \<Rightarrow> [] | Some sh \<Rightarrow> element w iw ih sh)"
proof (cases s)
  case (JObj kvs)
  show ?thesis
  proof (cases "map_of kvs ''details''")
    case None
    with JObj show ?thesis by (simp add: shape_svg_def parse_shape_def)
  next
    case (Some d)
    consider (r) "map_of kvs ''type'' = Some (JStr ''rectangle'')"
      | (c) "map_of kvs ''type'' = Some (JStr ''circle'')"
      | (p) "map_of kvs ''type'' = Some (JStr ''polygon'')"
      | (u) "map_of kvs ''type'' \<noteq> Some (JStr ''rectangle'')"
            "map_of kvs ''type'' \<noteq> Some (JStr ''circle'')"
            "map_of kvs ''type'' \<noteq> Some (JStr ''polygon'')"
      by blast
    then show ?thesis
    proof cases
      case r
      with Some JObj show ?thesis by (simp add: rectangle_svg)
    next
      case c
      with Some JObj show ?thesis by (simp add: circle_svg)
    next
      case p
      with Some JObj show ?thesis by (simp add: polygon_svg)
    next
      case u
      with Some JObj show ?thesis
        by (auto simp: shape_svg_def parse_shape_def Let_def split: option.splits json.splits)
    qed
  qed
qed (use assms in \<open>simp_all add: shape_svg_def parse_shape_def\<close>)

lemma shapesSvg_described:
  "JNull \<notin> set S \<Longrightarrow>
   shapesSvg w iw ih S = Inr (concat (map (element w iw ih) (described S)))"
proof (induction S)
  case Nil
  then show ?case by (simp add: described_def)
next
  case (Cons s S)
  then have s: "s \<noteq> JNull" and ih: "shapesSvg w iw ih S =
      Inr (concat (map (element w iw ih) (described S)))"
    by auto
  show ?case
  proof (cases "parse_shape s")
    case None
    with shape_svg_parsed [OF s, of w iw ih] ih show ?thesis
      by (simp add: described_def malformed_def well_formed_shape_def)
  next
    case (Some sh)
    with shape_svg_parsed [OF s, of w iw ih] ih show ?thesis
      by (simp add: described_def malformed_def well_formed_shape_def)
  qed
qed

lemma described_filter: "described (filter (\<lambda>s. \<not> malformed s) S) = described S"
  by (simp add: described_def)

lemma mask_svg_described:
  "JNull \<notin> set S \<Longrightarrow> mask_svg w iw ih S = Inr (mask_document w iw ih (described S))"
  by (simp add: mask_svg_def mask_document_def shapesSvg_described)

lemma null_shape_aborts: "JNull \<in> set S \<Longrightarrow> shapesSvg w iw ih S = Inl TypeError"
proof (induction S)
  case Nil
  then show ?case by simp
next
  case (Cons s S)
  show ?case
  proof (cases "s = JNull")
    case True
    then show ?thesis by (simp add: shape_svg_def)
  next
    case False
    with Cons have "shapesSvg w iw ih S = Inl TypeError" by simp
    with shape_svg_parsed [OF False, of w iw ih] show ?thesis by simp
  qed
qed

lemma path_normalize_not_Nil: "path_normalize p \<noteq> []"
  by (simp add: path_normalize_def Let_def)

lemma temp_mask_path_not_Nil: "temp_mask_path w \<noteq> []"
  by (simp add: temp_mask_path_def path_join_def path_normalize_not_Nil)

lemma rasterize_described:
  assumes "JNull \<notin> set S"
    and "metadata w img = Inr (Some iw, Some ih)" "0 < iw" "0 < ih"
    and "render_png w (mask_document w iw ih (described S)) = Inr png"
    and "write_error w (temp_mask_path w) = None"
  shows "rasterize w img S =
         ((None, Some (temp_mask_path w)), w\<lparr>files := (files w)(temp_mask_path w \<mapsto> png)\<rparr>)"
  using assms
  by (simp add: rasterize_def mask_svg_described temp_mask_path_def writeFile_def Let_def)

lemma rasterize_null:
  assumes "JNull \<in> set S" and "metadata w img = Inr (Some iw, Some ih)" "0 < iw" "0 < ih"
  shows "rasterize w img S = ((Some TypeError, None), w)"
  using assms by (simp add: rasterize_def mask_svg_def null_shape_aborts)

lemma rasterize_filter:
  assumes "JNull \<notin> set S"
  shows "rasterize w img S = rasterize w img (filter (\<lambda>s. \<not> malformed s) S)"
proof -
  from assms have "JNull \<notin> set (filter (\<lambda>s. \<not> malformed s) S)" by simp
  then have "mask_svg w a b S = mask_svg w a b (filter (\<lambda>s. \<not> malformed s) S)" for a b
    using assms by (simp add: mask_svg_described described_filter)
  then show ?thesis
    by (simp add: rasterize_def split: sum.splits prod.splits)
qed

lemma handler_filter:
  assumes "JNull \<notin> set S" "a_mask_shapes args = Some S" "filter (\<lambda>s. \<not> malformed s) S \<noteq> []"
  shows "edit_image_handler w args =
         edit_image_handler w (args\<lparr>a_mask_shapes := Some (filter (\<lambda>s. \<not> malformed s) S)\<rparr>)"
proof -
  let ?F = "filter (\<lambda>s. \<not> malformed s) S"
  from assms(3) have ne: "S \<noteq> []" by auto
  have o: "edit_options (args\<lparr>a_mask_shapes := Some ?F\<rparr>) = edit_options args"
    by (rule ext) (simp add: edit_options_def)
  have m: "has_mask (args\<lparr>a_mask_shapes := Some ?F\<rparr>) = has_mask args"
    by (simp add: has_mask_def)
  have s: "has_shapes (args\<lparr>a_mask_shapes := Some ?F\<rparr>)" "has_shapes args"
    using assms ne by (simp_all add: has_shapes_def)
  obtain f t w1 where r: "rasterize w (absolute_of w (a_imagePath args)) S = ((f, t), w1)"
    by (cases "rasterize w (absolute_of w (a_imagePath args)) S") auto
  with rasterize_filter [OF assms(1)]
  have r': "rasterize w (absolute_of w (a_imagePath args)) ?F = ((f, t), w1)"
    by simp
  from r r' assms(2) o m s show ?thesis
    by (cases f) (simp_all add: edit_image_handler_def)
qed

lemma handler_sends_mask:
  assumes "JNull \<notin> set S" "a_mask_shapes args = Some S" "S \<noteq> []" "\<not> has_mask args"
    and "metadata w (absolute_of w (a_imagePath args)) = Inr (Some iw, Some ih)" "0 < iw" "0 < ih"
    and "render_png w (mask_document w iw ih (described S)) = Inr png"
    and "write_error w (temp_mask_path w) = None"
  shows "requests (snd (edit_image_handler w args)) = requests w \<or>
         (\<exists>form. requests (snd (edit_image_handler w args)) = requests w @ [Edits form] \<and>
            (''mask'', FileField png (basename (temp_mask_path w))) \<in> set form)"
proof -
  let ?img = "absolute_of w (a_imagePath args)"
  let ?tmp = "temp_mask_path w"
  let ?w1 = "w\<lparr>files := (files w)(?tmp \<mapsto> png)\<rparr>"
  let ?opts = "edit_options args (Some ?tmp)"
  have r: "rasterize w ?img S = ((None, Some ?tmp), ?w1)"
    using assms by (simp add: rasterize_described)
  obtain res w2 where e: "editImage ?w1 (a_prompt args) ?img ?opts = (res, w2)"
    by (cases "editImage ?w1 (a_prompt args) ?img ?opts")
  have h: "edit_image_handler w args =
      (Inr (edit_response w2 ?img (Some ?tmp) True res), cleanup (Some ?tmp) w2)"
    using assms(2,3,4) r e by (simp add: edit_image_handler_def has_shapes_def Let_def)
  have mo: "mask_of ?opts = Some ?tmp"
    using temp_mask_path_not_Nil [of w] by (simp add: mask_of_def edit_options_def)
  from editImage_requests [OF e] mo
  have q: "requests w2 = requests w \<or>
    (\<exists>form. requests w2 = requests w @ [Edits form] \<and>
       (''mask'', FileField png (basename ?tmp)) \<in> set form)"
    by auto
  have "requests (cleanup (Some ?tmp) w2) = requests w2"
    by (simp add: cleanup_def unlink_def)
  with h q show ?thesis by simp
qed

text \<open>
  C9.  For a shape list \<open>S\<close> without a \<open>null\<close> entry, the drawing is the white elements of
  the well-formed shapes of \<open>S\<close>, in input order, and the document handed to the renderer
  is the black canvas followed by them: an entry that is malformed (a record with a missing
  or wrongly typed field or an unknown type tag, or no record at all) contributes nothing
  and stops nothing.  So the document and the whole rasterisation step are those of \<open>S\<close>
  without its malformed entries; when the image can be measured, rendered and written, the
  step writes the rendering of that document to the temporary mask file.  At the
  \<open>edit_image\<close> interface the call is the same as for the list without its malformed
  entries whenever a well-formed shape remains, and any request that reaches the provider
  carries the rendered document as its \<open>mask\<close> part.
\<close>

theorem malformed_shapes_skipped:
  "JNull \<notin> set S \<Longrightarrow>
   shapesSvg w iw ih S = Inr (concat (map (element w iw ih) (described S))) \<and>
   mask_svg w iw ih S = Inr (mask_document w iw ih (described S)) \<and>
   mask_svg w iw ih S = mask_svg w iw ih (filter (\<lambda>s. \<not> malformed s) S) \<and>
   rasterize w img S = rasterize w img (filter (\<lambda>s. \<not> malformed s) S) \<and>
   (metadata w img = Inr (Some iw, Some ih) \<and> 0 < iw \<and> 0 < ih \<and>
    render_png w (mask_document w iw ih (described S)) = Inr png \<and>
    write_error w (temp_mask_path w) = None \<longrightarrow>
    rasterize w img S =
      ((None, Some (temp_mask_path w)), w\<lparr>files := (files w)(temp_mask_path w \<mapsto> png)\<rparr>)) \<and>
   (a_mask_shapes args = Some S \<and> filter (\<lambda>s. \<not> malformed s) S \<noteq> [] \<longrightarrow>
    edit_image_handler w args =
      edit_image_handler w (args\<lparr>a_mask_shapes := Some (filter (\<lambda>s. \<not> malformed s) S)\<rparr>)) \<and>
   (a_mask_shapes args = Some S \<and> S \<noteq> [] \<and> \<not> has_mask args \<and>
    metadata w (absolute_of w (a_imagePath args)) = Inr (Some iw, Some ih) \<and> 0 < iw \<and> 0 < ih \<and>
    render_png w (mask_document w iw ih (described S)) = Inr png \<and>
    write_error w (temp_mask_path w) = None \<longrightarrow>
    requests (snd (edit_image_handler w args)) = requests w \<or>
    (\<exists>form. requests (snd (edit_image_handler w args)) = requests w @ [Edits form] \<and>
       (''mask'', FileField png (basename (temp_mask_path w))) \<in> set form))"
proof -
  assume n: "JNull \<notin> set S"
  then have n': "JNull \<notin> set (filter (\<lambda>s. \<not> malformed s) S)" by simp
  have 1: "shapesSvg w iw ih S = Inr (concat (map (element w iw ih) (described S)))"
    using n by (rule shapesSvg_described)
  have 2: "mask_svg w iw ih S = Inr (mask_document w iw ih (described S))"
    using n by (rule mask_svg_described)
  have 3: "mask_svg w iw ih S = mask_svg w iw ih (filter (\<lambda>s. \<not> malformed s) S)"
    using n n' by (simp add: mask_svg_described described_filter)
  have 4: "rasterize w img S = rasterize w img (filter (\<lambda>s. \<not> malformed s) S)"
    using n by (rule rasterize_filter)
  have 5: "metadata w img = Inr (Some iw, Some ih) \<and> 0 < iw \<and> 0 < ih \<and>
    render_png w (mask_document w iw ih (described S)) = Inr png \<and>
    write_error w (temp_mask_path w) = None \<longrightarrow>
    rasterize w img S =
      ((None, Some (temp_mask_path w)), w\<lparr>files := (files w)(temp_mask_path w \<mapsto> png)\<rparr>)"
    using rasterize_described [OF n] by blast
  have 6: "a_mask_shapes args = Some S \<and> filter (\<lambda>s. \<not> malformed s) S \<noteq> [] \<longrightarrow>
    edit_image_handler w args =
      edit_image_handler w (args\<lparr>a_mask_shapes := Some (filter (\<lambda>s. \<not> malformed s) S)\<rparr>)"
    using handler_filter [OF n] by blast
  have 7: "a_mask_shapes args = Some S \<and> S \<noteq> [] \<and> \<not> has_mask args \<and>
    metadata w (absolute_of w (a_imagePath args)) = Inr (Some iw, Some ih) \<and> 0 < iw \<and> 0 < ih \<and>
    render_png w (mask_document w iw ih (described S)) = Inr png \<and>
    write_error w (temp_mask_path w) = None \<longrightarrow>
    requests (snd (edit_image_handler w args)) = requests w \<or>
    (\<exists>form. requests (snd (edit_image_handler w args)) = requests w @ [Edits form] \<and>
       (''mask'', FileField png (basename (temp_mask_path w))) \<in> set form)"
    using handler_sends_mask [OF n] by blast
  from 1 2 3 4 5 6 7 show ?thesis by blast
qed

theorem malformed_shapes_skipped_witness:
  "JNull \<notin> set [unit_rectangle, circle_without_fields] \<and>
   malformed circle_without_fields \<and> \<not> malformed unit_rectangle \<and>
   described [unit_rectangle, circle_without_fields] =
     [Rectangle (Fin 0) (Fin 0) (Fin 1) (Fin 1)] \<and>
   mask_svg (demo_world (response [b64_item ''AAAA''])) 4 4
       [unit_rectangle, circle_without_fields] =
     Inr (mask_document (demo_world (response [b64_item ''AAAA''])) 4 4
            [Rectangle (Fin 0) (Fin 0) (Fin 1) (Fin 1)]) \<and>
   mask_svg (demo_world (response [b64_item ''AAAA''])) 4 4
       [unit_rectangle, circle_without_fields] =
     mask_svg (demo_world (response [b64_item ''AAAA''])) 4 4 [unit_rectangle] \<and>
   rasterize (demo_world (response [b64_item ''AAAA''])) ''/srv/app/in.png''
       [unit_rectangle, circle_without_fields] =
     ((None, Some ''/tmp/mask-17.png''),
      (demo_world (response [b64_item ''AAAA'']))
        \<lparr>files := (files (demo_world (response [b64_item ''AAAA''])))
           (''/tmp/mask-17.png'' \<mapsto>
              mask_document (demo_world (response [b64_item ''AAAA''])) 4 4
                [Rectangle (Fin 0) (Fin 0) (Fin 1) (Fin 1)])\<rparr>) \<and>
   edit_image_handler (demo_world (response [b64_item ''AAAA'']))
       (edit_demo\<lparr>a_mask_shapes := Some [unit_rectangle, circle_without_fields]\<rparr>) =
     edit_image_handler (demo_world (response [b64_item ''AAAA'']))
       (edit_demo\<lparr>a_mask_shapes := Some [unit_rectangle]\<rparr>)"
proof -
  define W where "W = demo_world (response [b64_item ''AAAA''])"
  define S where "S = [unit_rectangle, circle_without_fields]"
  define A where "A = edit_demo\<lparr>a_mask_shapes := Some S\<rparr>"
  define R where "R = [Rectangle (Fin 0) (Fin 0) (Fin 1) (Fin 1)]"
  have n: "JNull \<notin> set S"
    unfolding S_def by code_simp
  have m: "malformed circle_without_fields" "\<not> malformed unit_rectangle"
    by code_simp+
  have d: "described S = R"
    unfolding S_def R_def by code_simp
  have f: "filter (\<lambda>s. \<not> malformed s) S = [unit_rectangle]"
    unfolding S_def by code_simp
  have t: "temp_mask_path W = ''/tmp/mask-17.png''"
    unfolding W_def by code_simp
  have g: "metadata W ''/srv/app/in.png'' = Inr (Some 4, Some 4) \<and> (0::nat) < 4 \<and> (0::nat) < 4 \<and>
           render_png W (mask_document W 4 4 (described S)) = Inr (mask_document W 4 4 R) \<and>
           write_error W (temp_mask_path W) = None"
    by (simp add: W_def demo_world_def d)
  have a: "a_mask_shapes A = Some S \<and> filter (\<lambda>s. \<not> malformed s) S \<noteq> []"
    by (simp add: A_def f)
  note c = malformed_shapes_skipped [OF n, of W 4 4 "''/srv/app/in.png''" "mask_document W 4 4 R" A]
  from c [THEN conjunct2, THEN conjunct1]
  have 2: "mask_svg W 4 4 S = Inr (mask_document W 4 4 R)"
    unfolding d .
  from c [THEN conjunct2, THEN conjunct2, THEN conjunct1]
  have 3: "mask_svg W 4 4 S = mask_svg W 4 4 [unit_rectangle]"
    unfolding f .
  from c [THEN conjunct2, THEN conjunct2, THEN conjunct2, THEN conjunct2, THEN conjunct1,
      THEN mp, OF g]
  have 5: "rasterize W ''/srv/app/in.png'' S =
     ((None, Some ''/tmp/mask-17.png''),
      W\<lparr>files := (files W)(''/tmp/mask-17.png'' \<mapsto> mask_document W 4 4 R)\<rparr>)"
    by (simp add: t)
  from c [THEN conjunct2, THEN conjunct2, THEN conjunct2, THEN conjunct2, THEN conjunct2,
      THEN conjunct1, THEN mp, OF a]
  have 6: "edit_image_handler W A =
      edit_image_handler W (edit_demo\<lparr>a_mask_shapes := Some [unit_rectangle]\<rparr>)"
    unfolding f by (simp add: A_def)
  from n m d 2 3 5 6 show ?thesis
    unfolding W_def S_def A_def R_def by blast
qed

text \<open>
  C9, counterexample: two lists.  A non-empty list with no well-formed shape is
  still rasterised, and the request carries an all-black mask, whereas the empty list that
  remains once the malformed entries are removed sends no mask at all.  And a \<open>null\<close>
  entry is not skipped: reading its \<open>details\<close> is a TypeError that ends the whole call,
  while the list without it is rasterised.
\<close>

theorem all_malformed_list_sends_black_mask:
  "malformed circle_without_fields \<and>
   filter (\<lambda>s. \<not> malformed s) [circle_without_fields] = [] \<and>
   map mask_parts
     (requests (snd (edit_image_handler (demo_world (response [b64_item ''AAAA'']))
        (edit_demo\<lparr>a_mask_shapes := Some [circle_without_fields]\<rparr>)))) =
     [[FileField (mask_document (demo_world (response [b64_item ''AAAA''])) 4 4 [])
         ''mask-17.png'']] \<and>
   map mask_parts
     (requests (snd (edit_image_handler (demo_world (response [b64_item ''AAAA'']))
        (edit_demo\<lparr>a_mask_shapes := Some []\<rparr>)))) = [[]] \<and>
   malformed JNull \<and>
   rasterize (demo_world (response [b64_item ''AAAA''])) ''/srv/app/in.png''
       [unit_rectangle, JNull] =
     ((Some TypeError, None), demo_world (response [b64_item ''AAAA''])) \<and>
   fst (rasterize (demo_world (response [b64_item ''AAAA''])) ''/srv/app/in.png''
       [unit_rectangle]) = (None, Some ''/tmp/mask-17.png'') \<and>
   edit_image_handler (demo_world (response [b64_item ''AAAA'']))
       (edit_demo\<lparr>a_mask_shapes := Some [unit_rectangle, JNull]\<rparr>) =
     (Inl TypeError, demo_world (response [b64_item ''AAAA'']))"
proof -
  define W where "W = demo_world (response [b64_item ''AAAA''])"
  have 1: "malformed circle_without_fields \<and>
    filter (\<lambda>s. \<not> malformed s) [circle_without_fields] = [] \<and>
    map mask_parts (requests (snd (edit_image_handler (demo_world (response [b64_item ''AAAA'']))
        (edit_demo\<lparr>a_mask_shapes := Some [circle_without_fields]\<rparr>)))) =
     [[FileField (mask_document (demo_world (response [b64_item ''AAAA''])) 4 4 [])
         ''mask-17.png'']] \<and>
    map mask_parts (requests (snd (edit_image_handler (demo_world (response [b64_item ''AAAA'']))
        (edit_demo\<lparr>a_mask_shapes := Some []\<rparr>)))) = [[]] \<and>
    malformed JNull"
    by code_simp
  have md: "metadata W p = Inr (Some 4, Some 4)" for p
    by (simp add: W_def demo_world_def)
  have 2: "rasterize W ''/srv/app/in.png'' [unit_rectangle, JNull] = ((Some TypeError, None), W)"
    by (rule rasterize_null [where iw = 4 and ih = 4]) (simp_all add: md)
  have t: "temp_mask_path W = ''/tmp/mask-17.png''"
    unfolding W_def by code_simp
  have ur: "JNull \<noteq> unit_rectangle"
    by (simp add: unit_rectangle_def)
  have "rasterize W ''/srv/app/in.png'' [unit_rectangle] =
      ((None, Some (temp_mask_path W)),
       W\<lparr>files := (files W)(temp_mask_path W \<mapsto> mask_document W 4 4 (described [unit_rectangle]))\<rparr>)"
    by (rule rasterize_described [where iw = 4 and ih = 4])
      (simp_all add: md ur, simp_all add: W_def demo_world_def)
  with t have 3: "fst (rasterize W ''/srv/app/in.png'' [unit_rectangle]) =
      (None, Some ''/tmp/mask-17.png'')"
    by simp
  have ab: "absolute_of W (a_imagePath (edit_demo\<lparr>a_mask_shapes := Some [unit_rectangle, JNull]\<rparr>))
      = ''/srv/app/in.png''"
    unfolding W_def by code_simp
  have 4: "edit_image_handler W (edit_demo\<lparr>a_mask_shapes := Some [unit_rectangle, JNull]\<rparr>) =
      (Inl TypeError, W)"
    using 2 ab
    by (simp add: edit_image_handler_def has_shapes_def has_mask_def edit_demo_def cleanup_def)
  from 1 2 3 4 show ?thesis
    unfolding W_def by blast
qed

end
